theory Spec2Isabelle
  imports Main "HOL-Library.Sublist"
begin

section \<open>Values read from the input file\<close>

text \<open>
  \<^verbatim>\<open>scripts/import-calendar.py\<close> works on whatever \<^verbatim>\<open>json.load\<close> returns: nested
  Python values. A Python \<^verbatim>\<open>str\<close> is a sequence of characters; it is modelled by
  \<^typ>\<open>string\<close>, one list element per Python character (so \<^const>\<open>length\<close> and
  \<^const>\<open>take\<close> count what \<^verbatim>\<open>len\<close> and slicing count), which covers the
  characters below code point 256. An \<^verbatim>\<open>int\<close> is unbounded. A \<^verbatim>\<open>float\<close> is kept as
  the text that Python's \<^verbatim>\<open>repr\<close> prints for it: the script only ever tests a float
  for zero and prints it back. A \<^verbatim>\<open>dict\<close> is an association list in insertion
  order, looked up with \<^const>\<open>map_of\<close>; the keys of a dict are distinct.
\<close>

datatype json =
    JNull
  | JBool bool
  | JInt int
  | JFloat string
  | JStr string
  | JList "json list"
  | JDict "(string \<times> json) list"

text \<open>The exceptions the record loop can meet; all of them derive from \<^verbatim>\<open>Exception\<close>.\<close>

datatype py_error =
    AttributeError
  | TypeError
  | ValueError
  | ProgrammingError
  | DatabaseError

subsection \<open>Python operations used by the script\<close>

text \<open>Truth value of a value, as \<^verbatim>\<open>or\<close>, \<^verbatim>\<open>if\<close> and \<^verbatim>\<open>not\<close> test it.\<close>

fun truthy :: "json \<Rightarrow> bool" where
  "truthy JNull = False"
| "truthy (JBool b) = b"
| "truthy (JInt n) = (n \<noteq> 0)"
| "truthy (JFloat r) = (r \<noteq> ''0.0'' \<and> r \<noteq> ''-0.0'')"
| "truthy (JStr s) = (s \<noteq> [])"
| "truthy (JList xs) = (xs \<noteq> [])"
| "truthy (JDict kvs) = (kvs \<noteq> [])"

text \<open>\<^verbatim>\<open>a or b\<close> for two values that are already evaluated.\<close>

definition py_or :: "json \<Rightarrow> json \<Rightarrow> json" where
  "py_or a b = (if truthy a then a else b)"

text \<open>\<^verbatim>\<open>x.get(k, d)\<close>: only a dict has the method.\<close>

fun dict_get :: "json \<Rightarrow> string \<Rightarrow> json \<Rightarrow> py_error + json" where
  "dict_get (JDict kvs) k d = Inr (case map_of kvs k of Some v \<Rightarrow> v | None \<Rightarrow> d)"
| "dict_get _ k d = Inl AttributeError"

text \<open>
  \<^verbatim>\<open>k in x\<close> for a string \<open>k\<close>: a key test on a dict, a substring test on a
  str, an element test on a list; the other values are not iterable.
\<close>

fun py_in :: "string \<Rightarrow> json \<Rightarrow> py_error + bool" where
  "py_in k (JDict kvs) = Inr (k \<in> fst ` set kvs)"
| "py_in k (JStr s) = Inr (sublist k s)"
| "py_in k (JList xs) = Inr (JStr k \<in> set xs)"
| "py_in k _ = Inl TypeError"

text \<open>
  \<^verbatim>\<open>x[:500]\<close>: str and list slice; a dict rejects the slice as a key (a
  \<^verbatim>\<open>TypeError\<close>, or a \<^verbatim>\<open>KeyError\<close> from Python 3.12 on: an exception either
  way); nothing else is subscriptable.
\<close>

fun slice500 :: "json \<Rightarrow> py_error + json" where
  "slice500 (JStr s) = Inr (JStr (take 500 s))"
| "slice500 (JList xs) = Inr (JList (take 500 xs))"
| "slice500 _ = Inl TypeError"

text \<open>\<^verbatim>\<open>for a in x\<close>: the elements of a list, the keys of a dict, the characters of a str.\<close>

fun py_iter :: "json \<Rightarrow> py_error + json list" where
  "py_iter (JList xs) = Inr xs"
| "py_iter (JDict kvs) = Inr (map (\<lambda>kv. JStr (fst kv)) kvs)"
| "py_iter (JStr s) = Inr (map (\<lambda>c. JStr [c]) s)"
| "py_iter _ = Inl TypeError"

text \<open>\<^verbatim>\<open>s.replace('Z', '+00:00')\<close>; only a str has the method.\<close>

definition replace_Z :: "string \<Rightarrow> string" where
  "replace_Z s = concat (map (\<lambda>c. if c = CHR ''Z'' then ''+00:00'' else [c]) s)"

fun str_replace_Z :: "json \<Rightarrow> py_error + string" where
  "str_replace_Z (JStr s) = Inr (replace_Z s)"
| "str_replace_Z _ = Inl AttributeError"

subsection \<open>Printing values\<close>

definition digit_char :: "nat \<Rightarrow> char" where
  "digit_char d = ''0123456789abcdef'' ! d"

fun show_nat :: "nat \<Rightarrow> string" where
  "show_nat n = (if n < 10 then [digit_char n] else show_nat (n div 10) @ [digit_char (n mod 10)])"

declare show_nat.simps [simp del]

definition show_int :: "int \<Rightarrow> string" where
  "show_int i = (if i < 0 then CHR ''-'' # show_nat (nat (- i)) else show_nat (nat i))"

definition hex2 :: "char \<Rightarrow> string" where
  "hex2 c = [digit_char (of_char c div 16), digit_char (of_char c mod 16)]"

definition intercalate :: "string \<Rightarrow> string list \<Rightarrow> string" where
  "intercalate sep xs = (case xs of [] \<Rightarrow> [] | y # ys \<Rightarrow> y @ concat (map (\<lambda>z. sep @ z) ys))"

text \<open>
  \<^verbatim>\<open>json.dumps\<close> with its defaults (\<^verbatim>\<open>ensure_ascii=True\<close>, separators \<^verbatim>\<open>', '\<close>
  and \<^verbatim>\<open>': '\<close>): inside a string, the quote and the backslash are escaped, five
  control characters have short escapes, and every other character outside
  \<^verbatim>\<open>' '..'~'\<close> is written \<^verbatim>\<open>\u00XX\<close>.
\<close>

definition json_escape_char :: "char \<Rightarrow> string" where
  "json_escape_char c =
     (if c = CHR 0x22 then [CHR 0x5C, CHR 0x22]
      else if c = CHR 0x5C then [CHR 0x5C, CHR 0x5C]
      else if c = CHR 0x0A then [CHR 0x5C, CHR ''n'']
      else if c = CHR 0x0D then [CHR 0x5C, CHR ''r'']
      else if c = CHR 0x09 then [CHR 0x5C, CHR ''t'']
      else if c = CHR 0x08 then [CHR 0x5C, CHR ''b'']
      else if c = CHR 0x0C then [CHR 0x5C, CHR ''f'']
      else if (of_char c :: nat) < 32 \<or> (of_char c :: nat) > 126
        then [CHR 0x5C, CHR ''u'', CHR ''0'', CHR ''0''] @ hex2 c
      else [c])"

definition json_string :: "string \<Rightarrow> string" where
  "json_string s = [CHR 0x22] @ concat (map json_escape_char s) @ [CHR 0x22]"

fun json_dumps :: "json \<Rightarrow> string" where
  "json_dumps JNull = ''null''"
| "json_dumps (JBool b) = (if b then ''true'' else ''false'')"
| "json_dumps (JInt n) = show_int n"
| "json_dumps (JFloat r) =
     (if r = ''nan'' then ''NaN'' else if r = ''inf'' then ''Infinity''
      else if r = ''-inf'' then ''-Infinity'' else r)"
| "json_dumps (JStr s) = json_string s"
| "json_dumps (JList xs) = ''['' @ intercalate '', '' (map json_dumps xs) @ '']''"
| "json_dumps (JDict kvs) =
     ''{'' @ intercalate '', '' (map (\<lambda>kv. json_string (fst kv) @ '': '' @ json_dumps (snd kv)) kvs) @ ''}''"

text \<open>
  \<^verbatim>\<open>repr\<close> of a str: single quotes unless the text has a single quote and no
  double quote; the chosen quote and the backslash are escaped, tab, newline and
  carriage return have short escapes, and a character that is not printable is written
  \<^verbatim>\<open>\xXX\<close>.
\<close>

definition py_printable :: "char \<Rightarrow> bool" where
  "py_printable c =
     (let n = (of_char c :: nat) in (32 \<le> n \<and> n < 127) \<or> (161 \<le> n \<and> n \<noteq> 173))"

definition repr_char :: "char \<Rightarrow> char \<Rightarrow> string" where
  "repr_char q c =
     (if c = q \<or> c = CHR 0x5C then [CHR 0x5C, c]
      else if c = CHR 0x09 then [CHR 0x5C, CHR ''t'']
      else if c = CHR 0x0A then [CHR 0x5C, CHR ''n'']
      else if c = CHR 0x0D then [CHR 0x5C, CHR ''r'']
      else if \<not> py_printable c then [CHR 0x5C, CHR ''x''] @ hex2 c
      else [c])"

definition repr_str :: "string \<Rightarrow> string" where
  "repr_str s =
     (let q = (if CHR 0x27 \<in> set s \<and> CHR 0x22 \<notin> set s then CHR 0x22 else CHR 0x27)
      in [q] @ concat (map (repr_char q) s) @ [q])"

fun py_repr :: "json \<Rightarrow> string" where
  "py_repr JNull = ''None''"
| "py_repr (JBool b) = (if b then ''True'' else ''False'')"
| "py_repr (JInt n) = show_int n"
| "py_repr (JFloat r) = r"
| "py_repr (JStr s) = repr_str s"
| "py_repr (JList xs) = ''['' @ intercalate '', '' (map py_repr xs) @ '']''"
| "py_repr (JDict kvs) =
     ''{'' @ intercalate '', '' (map (\<lambda>kv. repr_str (fst kv) @ '': '' @ py_repr (snd kv)) kvs) @ ''}''"

text \<open>What an f-string puts in place of \<^verbatim>\<open>{v}\<close>: \<^verbatim>\<open>str(v)\<close>.\<close>

fun py_str :: "json \<Rightarrow> string" where
  "py_str (JStr s) = s"
| "py_str v = py_repr v"

section \<open>Normalising one event (lines 70 to 88)\<close>

text \<open>An exception ends the \<^verbatim>\<open>try\<close> body: the first \<^const>\<open>Inl\<close> is the result.\<close>

definition bind_err :: "py_error + 'a \<Rightarrow> ('a \<Rightarrow> py_error + 'b) \<Rightarrow> py_error + 'b" where
  "bind_err m f = (case m of Inl e \<Rightarrow> Inl e | Inr v \<Rightarrow> f v)"

text \<open>
  \<^verbatim>\<open>obj.get('dateTime') or f"{obj.get('date', '2026-01-01')}<sfx>"\<close>, for
  \<open>obj\<close> the event's \<^verbatim>\<open>start\<close> or \<^verbatim>\<open>end\<close>.
\<close>

definition resolve_time :: "string \<Rightarrow> json \<Rightarrow> py_error + json" where
  "resolve_time sfx obj =
     bind_err (dict_get obj ''dateTime'' JNull) (\<lambda>dt.
       if truthy dt then Inr dt
       else bind_err (dict_get obj ''date'' (JStr ''2026-01-01'')) (\<lambda>d.
         Inr (JStr (py_str d @ sfx))))"

text \<open>
  \<^verbatim>\<open>datetime.fromisoformat(t.replace('Z', '+00:00'))\<close>. The library parser is a
  parameter: \<open>parse s = None\<close> stands for its \<^verbatim>\<open>ValueError\<close>.
\<close>

definition parse_datetime :: "(string \<Rightarrow> 'dt option) \<Rightarrow> json \<Rightarrow> py_error + 'dt" where
  "parse_datetime parse t =
     bind_err (str_replace_Z t) (\<lambda>s.
       case parse s of None \<Rightarrow> Inl ValueError | Some d \<Rightarrow> Inr d)"

text \<open>\<^verbatim>\<open>(event.get(k) or '')[:500] or None\<close>, for location, hangoutLink and htmlLink.\<close>

definition opt_text500 :: "json \<Rightarrow> string \<Rightarrow> py_error + json" where
  "opt_text500 event k =
     bind_err (dict_get event k JNull) (\<lambda>v.
     bind_err (slice500 (py_or v (JStr ''''))) (\<lambda>s.
       Inr (py_or s JNull)))"

text \<open>\<^verbatim>\<open>[a.get('email', '') for a in xs if a.get('email')]\<close>, over the elements \<open>xs\<close>.\<close>

fun attendee_emails :: "json list \<Rightarrow> py_error + json list" where
  "attendee_emails [] = Inr []"
| "attendee_emails (a # as) =
     bind_err (dict_get a ''email'' JNull) (\<lambda>c.
       if truthy c
       then bind_err (dict_get a ''email'' (JStr '''')) (\<lambda>v.
            bind_err (attendee_emails as) (\<lambda>vs. Inr (v # vs)))
       else attendee_emails as)"

text \<open>The ten values handed to \<^verbatim>\<open>cursor.execute\<close>, under the script's names.\<close>

record 'dt params =
  google_event_id :: json
  summary :: json
  description :: json
  start_dt :: 'dt
  end_dt :: 'dt
  is_all_day :: bool
  location :: json
  attendees :: string
  hangout_link :: json
  html_link :: json

definition normalize :: "(string \<Rightarrow> 'dt option) \<Rightarrow> json \<Rightarrow> py_error + 'dt params" where
  "normalize parse event =
     bind_err (dict_get event ''id'' (JStr '''')) (\<lambda>gid.
     bind_err (dict_get event ''summary'' (JStr ''Untitled'')) (\<lambda>s0.
     bind_err (slice500 (py_or s0 (JStr ''Untitled''))) (\<lambda>summ.
     bind_err (dict_get event ''description'' JNull) (\<lambda>descr.
     bind_err (dict_get event ''start'' (JDict [])) (\<lambda>start.
     bind_err (dict_get event ''end'' (JDict [])) (\<lambda>end.
     bind_err (py_in ''dateTime'' start) (\<lambda>has_date_time.
     bind_err (resolve_time ''T00:00:00+00:00'' start) (\<lambda>start_time.
     bind_err (resolve_time ''T23:59:59+00:00'' end) (\<lambda>end_time.
     bind_err (parse_datetime parse start_time) (\<lambda>sdt.
     bind_err (parse_datetime parse end_time) (\<lambda>edt.
     bind_err (opt_text500 event ''location'') (\<lambda>loc.
     bind_err (dict_get event ''attendees'' (JList [])) (\<lambda>att.
     bind_err (py_iter att) (\<lambda>as.
     bind_err (attendee_emails as) (\<lambda>emails.
     bind_err (opt_text500 event ''hangoutLink'') (\<lambda>hl.
     bind_err (opt_text500 event ''htmlLink'') (\<lambda>html.
       Inr \<lparr>google_event_id = gid, summary = summ, description = descr,
            start_dt = sdt, end_dt = edt, is_all_day = \<not> has_date_time,
            location = loc, attendees = json_dumps (JList emails),
            hangout_link = hl, html_link = html\<rparr>)))))))))))))))))"

section \<open>The upsert statement (lines 90 to 105)\<close>

text \<open>
  What the connector makes of a Python parameter: \<^verbatim>\<open>None\<close> is NULL, a bool is 1 or
  0, numbers and text go as they are; a list or a dict cannot be converted, and
  \<^verbatim>\<open>cursor.execute\<close> raises before anything reaches the server.
\<close>

datatype sqlval = SqlNull | SqlInt int | SqlFloat string | SqlText string

fun to_mysql :: "json \<Rightarrow> py_error + sqlval" where
  "to_mysql JNull = Inr SqlNull"
| "to_mysql (JBool b) = Inr (SqlInt (if b then 1 else 0))"
| "to_mysql (JInt n) = Inr (SqlInt n)"
| "to_mysql (JFloat r) = Inr (SqlFloat r)"
| "to_mysql (JStr s) = Inr (SqlText s)"
| "to_mysql _ = Inl ProgrammingError"

text \<open>
  Modelled from the spec: the table \<^verbatim>\<open>calendar_events\<close>, whose declaration is not
  among the sources. It has the eleven columns the statement names and a unique
  key on \<^verbatim>\<open>googleEventId\<close>. A row holds the values as they were sent.
\<close>

record 'dt row =
  googleEventId :: sqlval
  col_summary :: sqlval
  col_description :: sqlval
  startTime :: 'dt
  endTime :: 'dt
  isAllDay :: bool
  col_location :: sqlval
  col_attendees :: string
  hangoutLink :: sqlval
  htmlLink :: sqlval
  syncedAt :: int

text \<open>
  \<^verbatim>\<open>INSERT ... VALUES (..., NOW()) ON DUPLICATE KEY UPDATE ...\<close> with the new row
  \<open>r\<close>, whose \<^const>\<open>syncedAt\<close> is the server's \<^verbatim>\<open>NOW()\<close>. A row conflicts
  when it has the same key; as in SQL, a NULL key conflicts with nothing. On a
  conflict the ten assignments of the statement are applied to the old row;
  otherwise the new row is added.
\<close>

definition conflicts :: "'dt row \<Rightarrow> 'dt row \<Rightarrow> bool" where
  "conflicts r x = (googleEventId r \<noteq> SqlNull \<and> googleEventId x = googleEventId r)"

definition on_duplicate_key_update :: "'dt row \<Rightarrow> 'dt row \<Rightarrow> 'dt row" where
  "on_duplicate_key_update r x =
     x\<lparr>col_summary := col_summary r,
       col_description := col_description r,
       startTime := startTime r,
       endTime := endTime r,
       isAllDay := isAllDay r,
       col_location := col_location r,
       col_attendees := col_attendees r,
       hangoutLink := hangoutLink r,
       htmlLink := htmlLink r,
       syncedAt := syncedAt r\<rparr>"

definition upsert :: "'dt row \<Rightarrow> 'dt row list \<Rightarrow> 'dt row list" where
  "upsert r tbl =
     (if list_ex (conflicts r) tbl
      then map (\<lambda>x. if conflicts r x then on_duplicate_key_update r x else x) tbl
      else tbl @ [r])"

text \<open>
  \<^verbatim>\<open>cursor.execute(sql, params)\<close> at server time \<open>t\<close>. The connector first
  converts the parameters, which gives the row of the \<^verbatim>\<open>VALUES\<close> clause. Which
  rows the server then refuses (a value too long for its column, a NULL in a column
  declared NOT NULL, a lost connection) is not decided by the script: \<open>rejects\<close>
  is a parameter.
\<close>

definition to_row :: "int \<Rightarrow> 'dt params \<Rightarrow> py_error + 'dt row" where
  "to_row t p =
     bind_err (to_mysql (google_event_id p)) (\<lambda>k.
     bind_err (to_mysql (summary p)) (\<lambda>su.
     bind_err (to_mysql (description p)) (\<lambda>de.
     bind_err (to_mysql (location p)) (\<lambda>lo.
     bind_err (to_mysql (hangout_link p)) (\<lambda>ha.
     bind_err (to_mysql (html_link p)) (\<lambda>ht.
       Inr \<lparr>googleEventId = k, col_summary = su, col_description = de,
            startTime = start_dt p, endTime = end_dt p, isAllDay = is_all_day p,
            col_location = lo, col_attendees = attendees p,
            hangoutLink = ha, htmlLink = ht, syncedAt = t\<rparr>))))))"

definition cursor_execute ::
  "('dt row list \<Rightarrow> 'dt row \<Rightarrow> bool) \<Rightarrow> int \<Rightarrow> 'dt row list \<Rightarrow> 'dt params \<Rightarrow> py_error + 'dt row list" where
  "cursor_execute rejects t tbl p =
     bind_err (to_row t p) (\<lambda>r.
       if rejects tbl r then Inl DatabaseError else Inr (upsert r tbl))"

section \<open>The record loop (lines 65 to 110)\<close>

text \<open>
  What the script does not decide: the library's ISO-8601 parser, the server's
  refusals, and the server's clock, \<open>now i\<close> being \<^verbatim>\<open>NOW()\<close> when the statement
  for the record at position \<open>i\<close> runs.
\<close>

record 'dt env =
  fromisoformat :: "string \<Rightarrow> 'dt option"
  server_rejects :: "'dt row list \<Rightarrow> 'dt row \<Rightarrow> bool"
  now :: "nat \<Rightarrow> int"

text \<open>The lines the script prints, and what it does to the outside, in order.\<close>

datatype log_line =
    Usage
  | ExpectedArray
  | Found nat
  | UrlNotFound
  | ErrorImporting json py_error
  | Complete int int

datatype 'dt effect =
    Print log_line
  | Connect string
  | Execute "'dt params"
  | Commit
  | Close

text \<open>
  The loop's variables: the table as the open transaction sees it, the two
  counters, and the effects so far.
\<close>

record 'dt state =
  table :: "'dt row list"
  synced :: int
  errors :: int
  trace :: "'dt effect list"

text \<open>The \<^verbatim>\<open>try\<close> body for one event: normalise, then execute.\<close>

definition import_event :: "'dt env \<Rightarrow> int \<Rightarrow> 'dt row list \<Rightarrow> json \<Rightarrow> py_error + 'dt row list" where
  "import_event env t tbl event =
     bind_err (normalize (fromisoformat env) event) (\<lambda>p.
       cursor_execute (server_rejects env) t tbl p)"

text \<open>
  The \<^verbatim>\<open>except Exception\<close> handler. It calls \<^verbatim>\<open>event.get('id', 'unknown')\<close> for
  the message; an exception raised there is not caught by anything and ends the
  run.
\<close>

datatype 'a run = Continue 'a | Uncaught py_error 'a

definition handler :: "'dt state \<Rightarrow> json \<Rightarrow> py_error \<Rightarrow> 'dt state run" where
  "handler st event e =
     (case dict_get event ''id'' (JStr ''unknown'') of
        Inl e' \<Rightarrow> Uncaught e' st
      | Inr i \<Rightarrow> Continue (st\<lparr>errors := errors st + 1,
                               trace := trace st @ [Print (ErrorImporting i e)]\<rparr>))"

definition process_event :: "'dt env \<Rightarrow> int \<Rightarrow> 'dt state \<Rightarrow> json \<Rightarrow> 'dt state run" where
  "process_event env t st event =
     (case normalize (fromisoformat env) event of
        Inl e \<Rightarrow> handler st event e
      | Inr p \<Rightarrow>
          (let st1 = st\<lparr>trace := trace st @ [Execute p]\<rparr>
           in case cursor_execute (server_rejects env) t (table st) p of
                Inl e \<Rightarrow> handler st1 event e
              | Inr tbl \<Rightarrow> Continue (st1\<lparr>table := tbl, synced := synced st + 1\<rparr>)))"

fun main_loop :: "'dt env \<Rightarrow> nat \<Rightarrow> 'dt state \<Rightarrow> json list \<Rightarrow> 'dt state run" where
  "main_loop env i st [] = Continue st"
| "main_loop env i st (event # events) =
     (case process_event env (now env i) st event of
        Uncaught e st' \<Rightarrow> Uncaught e st'
      | Continue st' \<Rightarrow> main_loop env (Suc i) st' events)"

section \<open>The whole run (lines 14 to 116)\<close>

text \<open>\<^verbatim>\<open>str.strip()\<close> removes white space at both ends, \<^verbatim>\<open>str.strip(c)\<close> the character \<open>c\<close>.\<close>

definition py_isspace :: "char \<Rightarrow> bool" where
  "py_isspace c =
     (let n = (of_char c :: nat)
      in (9 \<le> n \<and> n \<le> 13) \<or> (28 \<le> n \<and> n \<le> 32) \<or> n = 133 \<or> n = 160)"

definition strip_where :: "(char \<Rightarrow> bool) \<Rightarrow> string \<Rightarrow> string" where
  "strip_where P s = rev (dropWhile P (rev (dropWhile P s)))"

text \<open>
  The loop over the lines of \<^verbatim>\<open>.env\<close>: the first line that starts with
  \<^verbatim>\<open>DATABASE_URL=\<close> gives the value, \<^verbatim>\<open>line.split('=', 1)[1]\<close> stripped of
  white space, then of double quotes, then of single quotes.
\<close>

fun dotenv_url :: "string list \<Rightarrow> string" where
  "dotenv_url [] = []"
| "dotenv_url (line # lines) =
     (if prefix ''DATABASE_URL='' line
      then strip_where (\<lambda>c. c = CHR 0x27)
             (strip_where (\<lambda>c. c = CHR 0x22)
               (strip_where py_isspace (tl (dropWhile (\<lambda>c. c \<noteq> CHR ''='') line))))
      else dotenv_url lines)"

text \<open>
  What the run finds outside: the command line, the outcome of opening and
  parsing the file at a path (\<^const>\<open>None\<close> when \<^verbatim>\<open>open\<close> or \<^verbatim>\<open>json.load\<close>
  raises), the environment variable, the lines of \<^verbatim>\<open>.env\<close> when the file exists,
  whether \<^verbatim>\<open>urlparse\<close> and \<^verbatim>\<open>mysql.connector.connect\<close> succeed on a URL, whether
  the commit succeeds, and the committed content of the table.
\<close>

record 'dt world =
  argv :: "string list"
  read_json :: "string \<Rightarrow> json option"
  environ_DATABASE_URL :: "string option"
  dotenv :: "string list option"
  connect_ok :: "string \<Rightarrow> bool"
  commit_ok :: bool
  db :: "'dt row list"

definition find_db_url :: "'dt world \<Rightarrow> string" where
  "find_db_url w =
     (let db_url = (case environ_DATABASE_URL w of None \<Rightarrow> [] | Some u \<Rightarrow> u)
      in if db_url \<noteq> [] then db_url
         else (case dotenv w of None \<Rightarrow> [] | Some lines \<Rightarrow> dotenv_url lines))"

text \<open>
  The outcome of a run: the exit code, the committed table afterwards, and the
  effects. An exception that nothing catches ends the process with code 1, and
  what an open transaction wrote is not committed.
\<close>

record 'dt result =
  exit_code :: nat
  committed :: "'dt row list"
  effects :: "'dt effect list"

text \<open>The loop's variables when the loop starts (lines 30 and 62 to 66).\<close>

definition start_state :: "'dt world \<Rightarrow> json list \<Rightarrow> 'dt state" where
  "start_state w events =
     \<lparr>table = db w, synced = 0, errors = 0,
      trace = [Print (Found (length events)), Connect (find_db_url w)]\<rparr>"

definition main :: "'dt env \<Rightarrow> 'dt world \<Rightarrow> 'dt result" where
  "main env w =
     (if length (argv w) < 2
      then \<lparr>exit_code = 1, committed = db w, effects = [Print Usage]\<rparr>
      else case read_json w (argv w ! 1) of
        None \<Rightarrow> \<lparr>exit_code = 1, committed = db w, effects = []\<rparr>
      | Some data \<Rightarrow>
         (case dict_get data ''result'' (JList []) of
            Inl e \<Rightarrow> \<lparr>exit_code = 1, committed = db w, effects = []\<rparr>
          | Inr (JList events) \<Rightarrow>
             (if find_db_url w = []
              then \<lparr>exit_code = 1, committed = db w,
                    effects = [Print (Found (length events)), Print UrlNotFound]\<rparr>
              else if \<not> connect_ok w (find_db_url w)
              then \<lparr>exit_code = 1, committed = db w,
                    effects = [Print (Found (length events)), Connect (find_db_url w)]\<rparr>
              else
                (case main_loop env 0 (start_state w events) events of
                   Uncaught e st \<Rightarrow>
                     \<lparr>exit_code = 1, committed = db w, effects = trace st\<rparr>
                 | Continue st \<Rightarrow>
                     if \<not> commit_ok w
                     then \<lparr>exit_code = 1, committed = db w, effects = trace st @ [Commit]\<rparr>
                     else \<lparr>exit_code = 0, committed = table st,
                           effects = trace st @ [Commit, Close, Close,
                                       Print (Complete (synced st) (errors st))]\<rparr>))
          | Inr other \<Rightarrow> \<lparr>exit_code = 1, committed = db w, effects = [Print ExpectedArray]\<rparr>))"

section \<open>Notions used to state the properties\<close>

text \<open>An event record is a JSON object.\<close>

fun is_record :: "json \<Rightarrow> bool" where
  "is_record (JDict kvs) = True"
| "is_record _ = False"

text \<open>\<^verbatim>\<open>isinstance(x, list)\<close>.\<close>

fun is_array :: "json \<Rightarrow> bool" where
  "is_array (JList xs) = True"
| "is_array _ = False"

text \<open>The line that reports the counters (line 116).\<close>

fun is_report :: "'dt effect \<Rightarrow> bool" where
  "is_report (Print (Complete s e)) = True"
| "is_report _ = False"

text \<open>The row that the statement for an event writes at time \<open>t\<close>, if it gets that far.\<close>

definition written_row :: "'dt env \<Rightarrow> int \<Rightarrow> json \<Rightarrow> 'dt row option" where
  "written_row env t event =
     (case bind_err (normalize (fromisoformat env) event) (to_row t) of
        Inl e \<Rightarrow> None
      | Inr r \<Rightarrow> Some r)"

text \<open>The unique key of the table: no two rows share a key that is not NULL.\<close>

definition unique_key :: "'dt row list \<Rightarrow> bool" where
  "unique_key tbl = distinct (filter (\<lambda>k. k \<noteq> SqlNull) (map googleEventId tbl))"

text \<open>
  The resolution of a time as the specification words it: the \<^verbatim>\<open>dateTime\<close> field
  if present, otherwise the \<^verbatim>\<open>date\<close> field with the time of day appended,
  otherwise the fallback date with the time of day appended.
\<close>

definition spec_resolve_time :: "string \<Rightarrow> (string \<times> json) list \<Rightarrow> json" where
  "spec_resolve_time sfx obj =
     (case map_of obj ''dateTime'' of
        Some v \<Rightarrow> v
      | None \<Rightarrow>
         (case map_of obj ''date'' of
            Some d \<Rightarrow> JStr (py_str d @ sfx)
          | None \<Rightarrow> JStr (''2026-01-01'' @ sfx)))"

text \<open>
  The email an attendee contributes, as the specification words it: the
  \<^verbatim>\<open>email\<close> field when it is present and not empty (for a string, not
  \<^verbatim>\<open>""\<close>; in general, not a value that Python takes for false).
\<close>

fun kept_email :: "json \<Rightarrow> json option" where
  "kept_email (JDict kvs) =
     (case map_of kvs ''email'' of
        Some v \<Rightarrow> if truthy v then Some v else None
      | None \<Rightarrow> None)"
| "kept_email _ = None"

text \<open>
  The run gets as far as the loop over \<open>events\<close>: there is a path argument, the
  file parses to an object whose \<^verbatim>\<open>result\<close> is the list \<open>events\<close> (or, when the
  field is absent, the empty list), a connection string is found, and the
  connection opens.
\<close>

definition reaches_loop :: "'dt world \<Rightarrow> json list \<Rightarrow> bool" where
  "reaches_loop w events =
     (2 \<le> length (argv w)
      \<and> (case read_json w (argv w ! 1) of
           None \<Rightarrow> False
         | Some data \<Rightarrow> dict_get data ''result'' (JList []) = Inr (JList events))
      \<and> find_db_url w \<noteq> []
      \<and> connect_ok w (find_db_url w))"

subsection \<open>An instance of the parameters\<close>

text \<open>
  A stand-in for the library parser, to instantiate the results: it reads the
  one layout \<^verbatim>\<open>YYYY-MM-DD?HH:MM:SS+HH:MM\<close> (any character between date and time,
  either sign before the offset), checks the ranges of the calendar, and takes any
  other text for malformed.
\<close>

record datetime =
  year :: nat
  month :: nat
  day :: nat
  hour :: nat
  minute :: nat
  second :: nat
  utcoffset_minutes :: int

definition digit_val :: "char \<Rightarrow> nat option" where
  "digit_val c =
     (let n = (of_char c :: nat) in if 48 \<le> n \<and> n \<le> 57 then Some (n - 48) else None)"

fun nat_of_digits :: "nat \<Rightarrow> string \<Rightarrow> nat option" where
  "nat_of_digits acc [] = Some acc"
| "nat_of_digits acc (c # cs) =
     (case digit_val c of None \<Rightarrow> None | Some d \<Rightarrow> nat_of_digits (10 * acc + d) cs)"

definition days_in_month :: "nat \<Rightarrow> nat \<Rightarrow> nat" where
  "days_in_month y m =
     (if m = 2 then (if y mod 4 = 0 \<and> (y mod 100 \<noteq> 0 \<or> y mod 400 = 0) then 29 else 28)
      else if m = 4 \<or> m = 6 \<or> m = 9 \<or> m = 11 then 30 else 31)"

definition fixed_layout :: "string \<Rightarrow> bool" where
  "fixed_layout s =
     (length s = 25 \<and> s ! 4 = CHR ''-'' \<and> s ! 7 = CHR ''-'' \<and> s ! 13 = CHR '':''
      \<and> s ! 16 = CHR '':'' \<and> (s ! 19 = CHR ''+'' \<or> s ! 19 = CHR ''-'') \<and> s ! 22 = CHR '':'')"

definition field :: "nat \<Rightarrow> nat \<Rightarrow> string \<Rightarrow> nat option" where
  "field pos len s = nat_of_digits 0 (take len (drop pos s))"

definition fromisoformat_fixed :: "string \<Rightarrow> datetime option" where
  "fromisoformat_fixed s =
     (if \<not> fixed_layout s then None
      else case (field 0 4 s, field 5 2 s, field 8 2 s, field 11 2 s, field 14 2 s,
                 field 17 2 s, field 20 2 s, field 23 2 s) of
        (Some y, Some mo, Some d, Some h, Some mi, Some se, Some th, Some tm) \<Rightarrow>
          if 1 \<le> y \<and> 1 \<le> mo \<and> mo \<le> 12 \<and> 1 \<le> d \<and> d \<le> days_in_month y mo
             \<and> h < 24 \<and> mi < 60 \<and> se < 60 \<and> th < 24 \<and> tm < 60
          then Some \<lparr>year = y, month = mo, day = d, hour = h, minute = mi, second = se,
                     utcoffset_minutes =
                       (if s ! 19 = CHR ''-'' then - int (60 * th + tm) else int (60 * th + tm))\<rparr>
          else None
      | _ \<Rightarrow> None)"

text \<open>A server that refuses nothing, and a clock that advances by one from 1000.\<close>

definition plain_env :: "datetime env" where
  "plain_env =
     \<lparr>fromisoformat = fromisoformat_fixed,
      server_rejects = (\<lambda>tbl r. False),
      now = (\<lambda>i. 1000 + int i)\<rparr>"

text \<open>
  A run on a file that holds \<open>data\<close>, with the connection string in the
  environment, a server that answers, and an empty table.
\<close>

definition plain_world :: "json \<Rightarrow> datetime world" where
  "plain_world data =
     \<lparr>argv = [''scripts/import-calendar.py'', ''mcp_result.json''],
      read_json = (\<lambda>path. if path = ''mcp_result.json'' then Some data else None),
      environ_DATABASE_URL = Some ''mysql://user:pw@localhost:3306/portal'',
      dotenv = None,
      connect_ok = (\<lambda>url. True),
      commit_ok = True,
      db = []\<rparr>"

subsection \<open>Sample events\<close>

definition all_day_event :: json where
  "all_day_event =
     JDict [(''id'', JStr ''e1''),
            (''start'', JDict [(''date'', JStr ''2025-03-01'')]),
            (''end'', JDict [(''date'', JStr ''2025-03-01'')])]"

definition all_day_row :: "int \<Rightarrow> 'dt \<Rightarrow> 'dt \<Rightarrow> 'dt row" where
  "all_day_row t t0 t1 =
     \<lparr>googleEventId = SqlText ''e1'', col_summary = SqlText ''Untitled'',
      col_description = SqlNull, startTime = t0, endTime = t1, isAllDay = True,
      col_location = SqlNull, col_attendees = ''[]'', hangoutLink = SqlNull,
      htmlLink = SqlNull, syncedAt = t\<rparr>"

definition empty_dateTime_event :: json where
  "empty_dateTime_event =
     JDict [(''id'', JStr ''e4''),
            (''start'', JDict [(''dateTime'', JStr ''''), (''date'', JStr ''2025-03-01'')]),
            (''end'', JDict [(''date'', JStr ''2025-03-01'')])]"

definition timed_event :: json where
  "timed_event =
     JDict [(''id'', JStr ''e2''),
            (''summary'', JStr ''Standup''),
            (''start'', JDict [(''dateTime'', JStr ''2025-03-02T09:00:00Z'')]),
            (''end'', JDict [(''dateTime'', JStr ''2025-03-02T09:30:00Z'')]),
            (''attendees'', JList [JDict [(''email'', JStr ''ann@example.org'')],
                                   JDict [(''displayName'', JStr ''Room 4'')],
                                   JDict [(''email'', JStr '''')],
                                   JDict [(''email'', JStr ''bob@example.org'')]])]"

definition long_summary_event :: json where
  "long_summary_event =
     JDict [(''id'', JStr ''e3''), (''summary'', JStr (replicate 501 CHR ''x''))]"

definition malformed_event :: json where
  "malformed_event =
     JDict [(''id'', JStr ''e5''), (''start'', JDict [(''dateTime'', JStr ''tomorrow'')])]"

definition no_id_event :: json where
  "no_id_event = JDict [(''summary'', JStr ''First'')]"

definition empty_event :: json where
  "empty_event = JDict []"

text \<open>Midnight and the last second of a day, at offset zero.\<close>

definition day_start :: "nat \<Rightarrow> nat \<Rightarrow> nat \<Rightarrow> datetime" where
  "day_start y m d =
     \<lparr>year = y, month = m, day = d, hour = 0, minute = 0, second = 0, utcoffset_minutes = 0\<rparr>"

definition day_end :: "nat \<Rightarrow> nat \<Rightarrow> nat \<Rightarrow> datetime" where
  "day_end y m d =
     \<lparr>year = y, month = m, day = d, hour = 23, minute = 59, second = 59, utcoffset_minutes = 0\<rparr>"

text \<open>An input file with three events, of which the second has a malformed time.\<close>

definition three_events :: "json list" where
  "three_events = [all_day_event, malformed_event, timed_event]"

definition three_events_file :: json where
  "three_events_file = JDict [(''result'', JList three_events)]"

text \<open>
  An input file whose array holds a \<^verbatim>\<open>null\<close> between two events, and the parameters
  of the statement for the first of them.
\<close>

definition null_element_events :: "json list" where
  "null_element_events = [all_day_event, JNull, timed_event]"

definition null_element_file :: json where
  "null_element_file = JDict [(''result'', JList null_element_events)]"

definition all_day_params :: "datetime params" where
  "all_day_params =
     \<lparr>google_event_id = JStr ''e1'', summary = JStr ''Untitled'', description = JNull,
      start_dt = day_start 2025 3 1, end_dt = day_end 2025 3 1, is_all_day = True,
      location = JNull, attendees = ''[]'', hangout_link = JNull, html_link = JNull\<rparr>"

text \<open>A row with the optional columns empty, as the sample events produce them.\<close>

definition sample_row ::
  "string \<Rightarrow> string \<Rightarrow> 'dt \<Rightarrow> 'dt \<Rightarrow> bool \<Rightarrow> string \<Rightarrow> int \<Rightarrow> 'dt row" where
  "sample_row key title t0 t1 all_day emails t =
     \<lparr>googleEventId = SqlText key, col_summary = SqlText title,
      col_description = SqlNull, startTime = t0, endTime = t1, isAllDay = all_day,
      col_location = SqlNull, col_attendees = emails, hangoutLink = SqlNull,
      htmlLink = SqlNull, syncedAt = t\<rparr>"

definition timed_row :: "int \<Rightarrow> datetime row" where
  "timed_row t =
     sample_row ''e2'' ''Standup''
       ((day_start 2025 3 2)\<lparr>hour := 9\<rparr>) ((day_start 2025 3 2)\<lparr>hour := 9, minute := 30\<rparr>)
       False ''[\"ann@example.org\", \"bob@example.org\"]'' t"

section \<open>Basic facts\<close>

lemma bind_err_Inl [simp]: "bind_err (Inl e) f = Inl e"
  by (simp add: bind_err_def)

lemma bind_err_Inr [simp]: "bind_err (Inr v) f = f v"
  by (simp add: bind_err_def)

lemma bind_err_eq_Inr: "bind_err m f = Inr r \<longleftrightarrow> (\<exists>v. m = Inr v \<and> f v = Inr r)"
  by (cases m) simp_all

lemma bind_err_InrE:
  assumes "bind_err m f = Inr r"
  obtains v where "m = Inr v" and "f v = Inr r"
  using assms by (auto simp: bind_err_eq_Inr)

lemma dict_get_Inr: "dict_get x k d = Inr v \<Longrightarrow> \<exists>kvs. x = JDict kvs"
  by (cases x) simp_all

lemma resolve_time_Inr: "resolve_time sfx x = Inr v \<Longrightarrow> \<exists>kvs. x = JDict kvs"
  by (cases x) (simp_all add: resolve_time_def)

lemma normalize_Inr_record: "normalize parse event = Inr p \<Longrightarrow> \<exists>kvs. event = JDict kvs"
  by (cases event) (simp_all add: normalize_def)

lemma normalize_InrD:
  assumes "normalize parse (JDict kvs) = Inr p"
  shows "\<exists>start en st et as emails.
     google_event_id p = (case map_of kvs ''id'' of Some v \<Rightarrow> v | None \<Rightarrow> JStr '''') \<and>
     slice500 (py_or (case map_of kvs ''summary'' of Some v \<Rightarrow> v | None \<Rightarrow> JStr ''Untitled'')
                (JStr ''Untitled'')) = Inr (summary p) \<and>
     description p = (case map_of kvs ''description'' of Some v \<Rightarrow> v | None \<Rightarrow> JNull) \<and>
     (case map_of kvs ''start'' of Some v \<Rightarrow> v | None \<Rightarrow> JDict []) = JDict start \<and>
     (case map_of kvs ''end'' of Some v \<Rightarrow> v | None \<Rightarrow> JDict []) = JDict en \<and>
     is_all_day p = (map_of start ''dateTime'' = None) \<and>
     resolve_time ''T00:00:00+00:00'' (JDict start) = Inr st \<and>
     parse_datetime parse st = Inr (start_dt p) \<and>
     resolve_time ''T23:59:59+00:00'' (JDict en) = Inr et \<and>
     parse_datetime parse et = Inr (end_dt p) \<and>
     opt_text500 (JDict kvs) ''location'' = Inr (location p) \<and>
     py_iter (case map_of kvs ''attendees'' of Some v \<Rightarrow> v | None \<Rightarrow> JList []) = Inr as \<and>
     attendee_emails as = Inr emails \<and>
     attendees p = json_dumps (JList emails) \<and>
     opt_text500 (JDict kvs) ''hangoutLink'' = Inr (hangout_link p) \<and>
     opt_text500 (JDict kvs) ''htmlLink'' = Inr (html_link p)"
proof -
  have "\<exists>gid s0 summ descr s e has st et sdt edt loc att as emails hl html.
      dict_get (JDict kvs) ''id'' (JStr []) = Inr gid
      \<and> dict_get (JDict kvs) ''summary'' (JStr ''Untitled'') = Inr s0
      \<and> slice500 (py_or s0 (JStr ''Untitled'')) = Inr summ
      \<and> dict_get (JDict kvs) ''description'' JNull = Inr descr
      \<and> dict_get (JDict kvs) ''start'' (JDict []) = Inr s
      \<and> dict_get (JDict kvs) ''end'' (JDict []) = Inr e
      \<and> py_in ''dateTime'' s = Inr has
      \<and> resolve_time ''T00:00:00+00:00'' s = Inr st
      \<and> resolve_time ''T23:59:59+00:00'' e = Inr et
      \<and> parse_datetime parse st = Inr sdt
      \<and> parse_datetime parse et = Inr edt
      \<and> opt_text500 (JDict kvs) ''location'' = Inr loc
      \<and> dict_get (JDict kvs) ''attendees'' (JList []) = Inr att
      \<and> py_iter att = Inr as
      \<and> attendee_emails as = Inr emails
      \<and> opt_text500 (JDict kvs) ''hangoutLink'' = Inr hl
      \<and> opt_text500 (JDict kvs) ''htmlLink'' = Inr html
      \<and> \<lparr>google_event_id = gid, summary = summ, description = descr,
            start_dt = sdt, end_dt = edt, is_all_day = \<not> has,
            location = loc, attendees = json_dumps (JList emails),
            hangout_link = hl, html_link = html\<rparr> = p"
    using assms unfolding normalize_def
    by (elim bind_err_InrE) (intro exI conjI, (assumption | simp only: sum.inject)+)
  then obtain gid s0 summ descr s e has st et sdt edt loc att as emails hl html
    where 1: "dict_get (JDict kvs) ''id'' (JStr []) = Inr gid"
      and 2: "dict_get (JDict kvs) ''summary'' (JStr ''Untitled'') = Inr s0"
      and 3: "slice500 (py_or s0 (JStr ''Untitled'')) = Inr summ"
      and 4: "dict_get (JDict kvs) ''description'' JNull = Inr descr"
      and 5: "dict_get (JDict kvs) ''start'' (JDict []) = Inr s"
      and 6: "dict_get (JDict kvs) ''end'' (JDict []) = Inr e"
      and 7: "py_in ''dateTime'' s = Inr has"
      and 8: "resolve_time ''T00:00:00+00:00'' s = Inr st"
      and 9: "resolve_time ''T23:59:59+00:00'' e = Inr et"
      and 10: "parse_datetime parse st = Inr sdt"
      and 11: "parse_datetime parse et = Inr edt"
      and 12: "opt_text500 (JDict kvs) ''location'' = Inr loc"
      and 13: "dict_get (JDict kvs) ''attendees'' (JList []) = Inr att"
      and 14: "py_iter att = Inr as"
      and 15: "attendee_emails as = Inr emails"
      and 16: "opt_text500 (JDict kvs) ''hangoutLink'' = Inr hl"
      and 17: "opt_text500 (JDict kvs) ''htmlLink'' = Inr html"
      and p': "\<lparr>google_event_id = gid, summary = summ, description = descr,
            start_dt = sdt, end_dt = edt, is_all_day = \<not> has,
            location = loc, attendees = json_dumps (JList emails),
            hangout_link = hl, html_link = html\<rparr> = p"
    by (elim exE conjE)
  note p = p' [symmetric]
  from 8 obtain start where start: "s = JDict start" by (auto dest: resolve_time_Inr)
  from 9 obtain en where en: "e = JDict en" by (auto dest: resolve_time_Inr)
  have a: "google_event_id p = (case map_of kvs ''id'' of Some v \<Rightarrow> v | None \<Rightarrow> JStr '''')"
    using 1 p by auto
  have b: "slice500 (py_or (case map_of kvs ''summary'' of Some v \<Rightarrow> v | None \<Rightarrow> JStr ''Untitled'')
                (JStr ''Untitled'')) = Inr (summary p)"
    using 2 3 p by auto
  have c: "description p = (case map_of kvs ''description'' of Some v \<Rightarrow> v | None \<Rightarrow> JNull)"
    using 4 p by auto
  have d: "(case map_of kvs ''start'' of Some v \<Rightarrow> v | None \<Rightarrow> JDict []) = JDict start"
    using 5 start by auto
  have e: "(case map_of kvs ''end'' of Some v \<Rightarrow> v | None \<Rightarrow> JDict []) = JDict en"
    using 6 en by auto
  have f: "is_all_day p = (map_of start ''dateTime'' = None)"
    using 7 start p by (auto simp: map_of_eq_None_iff)
  have g: "py_iter (case map_of kvs ''attendees'' of Some v \<Rightarrow> v | None \<Rightarrow> JList []) = Inr as"
    using 13 14 by auto
  have h: "attendees p = json_dumps (JList emails)" "start_dt p = sdt" "end_dt p = edt"
    "location p = loc" "hangout_link p = hl" "html_link p = html"
    using p by simp_all
  show ?thesis
    apply (rule exI [of _ start], rule exI [of _ en], rule exI [of _ st], rule exI [of _ et])
    apply (rule exI [of _ as], rule exI [of _ emails])
    using a b c d e f g 8 9 10 11 12 15 16 17 start en h by simp
qed

lemma attendee_emails_Inr:
  "attendee_emails as = Inr emails \<Longrightarrow> emails = List.map_filter kept_email as"
proof (induction as arbitrary: emails)
  case Nil
  then show ?case by (simp add: List.map_filter_simps)
next
  case (Cons a as)
  from Cons.prems obtain kvs where a: "a = JDict kvs"
    by (cases a) simp_all
  show ?case
  proof (cases "map_of kvs ''email''")
    case None
    with Cons a show ?thesis by (simp add: List.map_filter_simps)
  next
    case (Some v)
    show ?thesis
    proof (cases "truthy v")
      case True
      with Cons.prems a Some obtain vs where vs: "attendee_emails as = Inr vs" and e: "emails = v # vs"
        by (auto simp: bind_err_eq_Inr)
      from Cons.IH [OF vs] e a Some True show ?thesis by (simp add: List.map_filter_simps)
    next
      case False
      with Cons a Some show ?thesis by (simp add: List.map_filter_simps)
    qed
  qed
qed

lemma attendee_emails_records:
  "attendee_emails as = Inr emails \<Longrightarrow> \<forall>a \<in> set as. is_record a"
proof (induction as arbitrary: emails)
  case Nil
  then show ?case by simp
next
  case (Cons a as)
  from Cons.prems obtain kvs where a: "a = JDict kvs"
    by (cases a) simp_all
  from Cons.prems a obtain vs where "attendee_emails as = Inr vs"
    by (auto simp: bind_err_eq_Inr split: if_splits)
  from Cons.IH [OF this] a show ?case by simp
qed

lemma to_row_InrD:
  assumes "to_row t p = Inr r"
  shows "to_mysql (google_event_id p) = Inr (googleEventId r)"
    and "to_mysql (summary p) = Inr (col_summary r)"
    and "to_mysql (description p) = Inr (col_description r)"
    and "startTime r = start_dt p"
    and "endTime r = end_dt p"
    and "isAllDay r = is_all_day p"
    and "to_mysql (location p) = Inr (col_location r)"
    and "col_attendees r = attendees p"
    and "to_mysql (hangout_link p) = Inr (hangoutLink r)"
    and "to_mysql (html_link p) = Inr (htmlLink r)"
    and "syncedAt r = t"
  using assms unfolding to_row_def by (auto simp: bind_err_eq_Inr)

lemma written_row_SomeD:
  assumes "written_row env t event = Some r"
  shows "\<exists>kvs p. event = JDict kvs \<and> normalize (fromisoformat env) event = Inr p \<and> to_row t p = Inr r"
proof -
  from assms obtain p where p: "normalize (fromisoformat env) event = Inr p" and r: "to_row t p = Inr r"
    unfolding written_row_def by (auto simp: bind_err_eq_Inr split: sum.splits)
  from normalize_Inr_record [OF p] p r show ?thesis by blast
qed

lemma import_event_InrD:
  assumes "import_event env t tbl event = Inr tbl'"
  shows "\<exists>r. written_row env t event = Some r \<and> \<not> server_rejects env tbl r \<and> tbl' = upsert r tbl"
  using assms unfolding import_event_def cursor_execute_def written_row_def
  by (auto simp: bind_err_eq_Inr split: if_splits)

lemma import_event_InrI:
  assumes "written_row env t event = Some r" and "\<not> server_rejects env tbl r"
  shows "import_event env t tbl event = Inr (upsert r tbl)"
proof -
  from written_row_SomeD [OF assms(1)] obtain p
    where "normalize (fromisoformat env) event = Inr p" and "to_row t p = Inr r" by blast
  with assms(2) show ?thesis
    by (simp add: import_event_def cursor_execute_def)
qed

subsection \<open>The table\<close>

lemma on_duplicate_key_update_same:
  "googleEventId x = googleEventId r \<Longrightarrow> on_duplicate_key_update r x = r"
  by (simp add: on_duplicate_key_update_def)

lemma on_duplicate_key_update_key [simp]:
  "googleEventId (on_duplicate_key_update r x) = googleEventId x"
  by (simp add: on_duplicate_key_update_def)

lemma upsert_conflict:
  assumes "list_ex (conflicts r) tbl"
  shows "upsert r tbl = map (\<lambda>x. if googleEventId x = googleEventId r then r else x) tbl"
proof -
  from assms have k: "googleEventId r \<noteq> SqlNull"
    by (auto simp: list_ex_iff conflicts_def)
  have "(if conflicts r x then on_duplicate_key_update r x else x)
        = (if googleEventId x = googleEventId r then r else x)" for x
    using k by (simp add: conflicts_def on_duplicate_key_update_same)
  with assms show ?thesis by (simp add: upsert_def)
qed

lemma upsert_no_conflict: "\<not> list_ex (conflicts r) tbl \<Longrightarrow> upsert r tbl = tbl @ [r]"
  by (simp add: upsert_def)

lemma upsert_mem: "r \<in> set (upsert r tbl)"
proof (cases "list_ex (conflicts r) tbl")
  case True
  then obtain x where "x \<in> set tbl" and "googleEventId x = googleEventId r"
    by (auto simp: list_ex_iff conflicts_def)
  then show ?thesis
    unfolding upsert_conflict [OF True] by force
next
  case False
  then show ?thesis by (simp add: upsert_no_conflict)
qed

lemma upsert_keys_conflict:
  "list_ex (conflicts r) tbl \<Longrightarrow> map googleEventId (upsert r tbl) = map googleEventId tbl"
  by (simp add: upsert_conflict)

lemma unique_key_upsert:
  assumes "unique_key tbl"
  shows "unique_key (upsert r tbl)"
proof (cases "list_ex (conflicts r) tbl")
  case True
  with assms show ?thesis by (simp add: unique_key_def upsert_keys_conflict)
next
  case False
  then have "googleEventId r \<noteq> SqlNull \<Longrightarrow> googleEventId r \<notin> set (map googleEventId tbl)"
    by (auto simp: list_ex_iff conflicts_def)
  with assms False show ?thesis
    by (auto simp: unique_key_def upsert_no_conflict)
qed

lemma distinct_filter_key_le1:
  assumes "distinct (filter P (map f xs))" and "P k"
  shows "length (filter (\<lambda>x. f x = k) xs) \<le> 1"
  using assms
proof (induction xs)
  case Nil
  then show ?case by simp
next
  case (Cons x xs)
  show ?case
  proof (cases "f x = k")
    case True
    with Cons.prems have "k \<notin> set (map f xs)" by auto
    then have "filter (\<lambda>x. f x = k) xs = []" by (auto simp: filter_empty_conv)
    with True show ?thesis by simp
  next
    case False
    with Cons show ?thesis by (auto split: if_splits)
  qed
qed

lemma upsert_one_row:
  assumes "unique_key tbl" and "googleEventId r \<noteq> SqlNull"
  shows "filter (\<lambda>x. googleEventId x = googleEventId r) (upsert r tbl) = [r]"
proof -
  let ?rows = "filter (\<lambda>x. googleEventId x = googleEventId r) (upsert r tbl)"
  have "unique_key (upsert r tbl)" by (rule unique_key_upsert [OF assms(1)])
  then have "length ?rows \<le> 1"
    unfolding unique_key_def using assms(2) by (rule distinct_filter_key_le1)
  moreover have "r \<in> set ?rows" using upsert_mem [of r tbl] by simp
  ultimately show ?thesis
    by (cases ?rows) (auto simp: Suc_le_eq)
qed

subsection \<open>One pass of the loop\<close>

lemma handler_record:
  "handler st (JDict kvs) e =
     Continue (st\<lparr>errors := errors st + 1,
                 trace := trace st @ [Print (ErrorImporting
                   (case map_of kvs ''id'' of Some v \<Rightarrow> v | None \<Rightarrow> JStr ''unknown'') e)]\<rparr>)"
  by (simp add: handler_def)

lemma handler_not_record:
  "\<not> is_record event \<Longrightarrow> handler st event e = Uncaught AttributeError st"
  by (cases event) (simp_all add: handler_def)

lemma process_event_ok:
  assumes "import_event env t (table st) event = Inr tbl'"
  shows "\<exists>p. normalize (fromisoformat env) event = Inr p \<and>
           process_event env t st event =
             Continue (st\<lparr>trace := trace st @ [Execute p], table := tbl', synced := synced st + 1\<rparr>)"
  using assms unfolding import_event_def process_event_def
  by (auto simp: bind_err_eq_Inr Let_def)

lemma process_event_err:
  assumes "import_event env t (table st) (JDict kvs) = Inl e"
  shows "\<exists>tr. process_event env t st (JDict kvs) =
             Continue (st\<lparr>trace := tr @ [Print (ErrorImporting
                   (case map_of kvs ''id'' of Some v \<Rightarrow> v | None \<Rightarrow> JStr ''unknown'') e)],
                 errors := errors st + 1\<rparr>)
           \<and> (tr = trace st \<or> (\<exists>p. tr = trace st @ [Execute p]))"
proof (cases "normalize (fromisoformat env) (JDict kvs)")
  case (Inl e')
  with assms have "e' = e" by (simp add: import_event_def)
  with Inl show ?thesis
    by (intro exI [of _ "trace st"]) (simp add: process_event_def handler_record)
next
  case (Inr p)
  with assms have "cursor_execute (server_rejects env) t (table st) p = Inl e"
    by (simp add: import_event_def)
  with Inr show ?thesis
    by (intro exI [of _ "trace st @ [Execute p]"])
       (simp add: process_event_def handler_record Let_def)
qed

lemma process_event_not_record:
  assumes "\<not> is_record event"
  shows "process_event env t st event = Uncaught AttributeError st"
proof -
  from assms have "normalize (fromisoformat env) event = Inl AttributeError"
    by (cases event) (simp_all add: normalize_def)
  with assms show ?thesis by (simp add: process_event_def handler_not_record)
qed

lemma process_event_record:
  assumes "is_record event"
  shows "\<exists>st'. process_event env t st event = Continue st' \<and>
           ((synced st' = synced st + 1 \<and> errors st' = errors st
               \<and> import_event env t (table st) event = Inr (table st'))
            \<or> (synced st' = synced st \<and> errors st' = errors st + 1 \<and> table st' = table st
               \<and> (\<exists>e. import_event env t (table st) event = Inl e)))"
proof -
  from assms obtain kvs where ev: "event = JDict kvs" by (cases event) simp_all
  show ?thesis
  proof (cases "import_event env t (table st) event")
    case (Inl e)
    from process_event_err [OF Inl [unfolded ev]] Inl ev show ?thesis by auto
  next
    case (Inr tbl')
    from process_event_ok [OF Inr] Inr show ?thesis by auto
  qed
qed

lemma main_loop_records:
  assumes "\<forall>e \<in> set events. is_record e"
  shows "\<exists>st'. main_loop env i st events = Continue st'
           \<and> synced st' + errors st' = synced st + errors st + int (length events)
           \<and> synced st \<le> synced st' \<and> errors st \<le> errors st'"
  using assms
proof (induction events arbitrary: i st)
  case Nil
  then show ?case by simp
next
  case (Cons event events)
  from Cons.prems have "is_record event" by simp
  from process_event_record [OF this, of env "now env i" st] obtain st1
    where p: "process_event env (now env i) st event = Continue st1"
      and c: "synced st1 + errors st1 = synced st + errors st + 1"
             "synced st \<le> synced st1" "errors st \<le> errors st1"
    by auto
  from Cons.prems have "\<forall>e \<in> set events. is_record e" by simp
  from Cons.IH [OF this, of "Suc i" st1] obtain st'
    where "main_loop env (Suc i) st1 events = Continue st'"
      and "synced st' + errors st' = synced st1 + errors st1 + int (length events)"
      and "synced st1 \<le> synced st'" and "errors st1 \<le> errors st'"
    by auto
  with p c show ?case by simp
qed

lemma process_event_unique_key:
  assumes "unique_key (table st)"
    and "process_event env t st event = Continue st' \<or> process_event env t st event = Uncaught e st'"
  shows "unique_key (table st')"
proof (cases "is_record event")
  case False
  from process_event_not_record [OF False, of env t st] assms show ?thesis by auto
next
  case True
  from process_event_record [OF True, of env t st] assms(2)
  have "table st' = table st \<or> import_event env t (table st) event = Inr (table st')"
    by auto
  then show ?thesis
  proof
    assume "table st' = table st"
    with assms(1) show ?thesis by simp
  next
    assume "import_event env t (table st) event = Inr (table st')"
    from import_event_InrD [OF this] assms(1) show ?thesis
      by (auto intro: unique_key_upsert)
  qed
qed

lemma main_loop_unique_key:
  assumes "unique_key (table st)"
    and "main_loop env i st events = Continue st' \<or> main_loop env i st events = Uncaught e st'"
  shows "unique_key (table st')"
  using assms
proof (induction events arbitrary: i st)
  case Nil
  then show ?case by simp
next
  case (Cons event events)
  show ?case
  proof (cases "process_event env (now env i) st event")
    case (Continue st1)
    then have "unique_key (table st1)"
      using process_event_unique_key [OF Cons.prems(1), of env "now env i" event st1] by simp
    moreover from Cons.prems(2) Continue
    have "main_loop env (Suc i) st1 events = Continue st' \<or> main_loop env (Suc i) st1 events = Uncaught e st'"
      by simp
    ultimately show ?thesis by (rule Cons.IH)
  next
    case (Uncaught e1 st1)
    with Cons.prems(2) have "st1 = st'" by simp
    with Uncaught show ?thesis
      using process_event_unique_key [OF Cons.prems(1), of env "now env i" event st' e1] by simp
  qed
qed

subsection \<open>What a successful import wrote\<close>

lemma import_event_rowE:
  assumes "import_event env t tbl event = Inr tbl'"
  obtains kvs p r where "event = JDict kvs"
    and "normalize (fromisoformat env) (JDict kvs) = Inr p"
    and "to_row t p = Inr r"
    and "written_row env t event = Some r"
    and "tbl' = upsert r tbl"
    and "r \<in> set tbl'"
proof -
  from import_event_InrD [OF assms] obtain r
    where w: "written_row env t event = Some r" and u: "tbl' = upsert r tbl" by blast
  from written_row_SomeD [OF w] obtain kvs p
    where "event = JDict kvs" "normalize (fromisoformat env) event = Inr p" "to_row t p = Inr r"
    by blast
  with w u upsert_mem [of r tbl] show thesis by (intro that [of kvs p r]) simp_all
qed

lemma import_record_rowE:
  assumes "import_event env t tbl (JDict kvs) = Inr tbl'"
  obtains p r where "normalize (fromisoformat env) (JDict kvs) = Inr p"
    and "to_row t p = Inr r"
    and "written_row env t (JDict kvs) = Some r"
    and "tbl' = upsert r tbl"
    and "r \<in> set tbl'"
  using assms by (elim import_event_rowE) simp

lemma resolve_time_record:
  "resolve_time sfx (JDict obj) =
     Inr (let synthesized = JStr (py_str (case map_of obj ''date'' of
                                            Some d \<Rightarrow> d | None \<Rightarrow> JStr ''2026-01-01'') @ sfx)
          in case map_of obj ''dateTime'' of
               Some v \<Rightarrow> if truthy v then v else synthesized
             | None \<Rightarrow> synthesized)"
  by (simp add: resolve_time_def Let_def split: option.splits)

lemma parse_datetime_InrD:
  "parse_datetime parse v = Inr d \<Longrightarrow> \<exists>s. v = JStr s \<and> parse (replace_Z s) = Some d"
  by (cases v) (auto simp: parse_datetime_def split: option.splits)

lemma stored_text:
  assumes "slice500 v = Inr w" and "to_mysql w = Inr c"
  shows "\<exists>s. v = JStr s \<and> c = SqlText (take 500 s)"
  using assms by (cases v) auto

lemma time_resolution:
  assumes "resolve_time sfx (JDict obj) = Inr v" and "parse_datetime parse v = Inr d"
  shows "\<exists>s. JStr s =
            (let synthesized = JStr (py_str (case map_of obj ''date'' of
                                               Some d \<Rightarrow> d | None \<Rightarrow> JStr ''2026-01-01'') @ sfx)
             in case map_of obj ''dateTime'' of
                  Some v \<Rightarrow> if truthy v then v else synthesized
                | None \<Rightarrow> synthesized)
          \<and> parse (replace_Z s) = Some d"
proof -
  from parse_datetime_InrD [OF assms(2)] obtain s
    where "v = JStr s" and "parse (replace_Z s) = Some d" by (elim exE conjE)
  with assms(1) show ?thesis
    unfolding resolve_time_record by (intro exI [of _ s]) simp
qed

lemma written_all_day_event:
  assumes "fromisoformat env ''2025-03-01T00:00:00+00:00'' = Some t0"
    and "fromisoformat env ''2025-03-01T23:59:59+00:00'' = Some t1"
  shows "written_row env t all_day_event = Some (all_day_row t t0 t1)"
  using assms
  by (simp add: written_row_def all_day_event_def all_day_row_def normalize_def
      resolve_time_def parse_datetime_def replace_Z_def opt_text500_def py_or_def to_row_def
      intercalate_def)

lemma list_ex_conflicts:
  "list_ex (conflicts r) tbl \<longleftrightarrow>
     googleEventId r \<noteq> SqlNull \<and> googleEventId r \<in> googleEventId ` set tbl"
proof -
  have "googleEventId r \<in> googleEventId ` set tbl
        \<longleftrightarrow> (\<exists>x \<in> set tbl. googleEventId x = googleEventId r)"
    unfolding image_iff by (rule bex_cong [OF refl]) (rule eq_commute)
  then show ?thesis by (auto simp: list_ex_iff conflicts_def)
qed

lemma upsert_cases:
  "(if googleEventId r \<noteq> SqlNull \<and> googleEventId r \<in> googleEventId ` set tbl
    then upsert r tbl = map (\<lambda>x. if googleEventId x = googleEventId r then r else x) tbl
    else upsert r tbl = tbl @ [r])"
proof (cases "list_ex (conflicts r) tbl")
  case True
  from upsert_conflict [OF True] True show ?thesis
    unfolding list_ex_conflicts by simp
next
  case False
  from upsert_no_conflict [OF False] False show ?thesis
    unfolding list_ex_conflicts by simp
qed

lemma main_committed:
  "committed (main env w) = db w
   \<or> (\<exists>events st. main_loop env 0 (start_state w events) events = Continue st
         \<and> committed (main env w) = table st)"
proof (cases "length (argv w) < 2")
  case True
  then show ?thesis by (simp add: main_def)
next
  case False
  note args = this
  show ?thesis
  proof (cases "read_json w (argv w ! 1)")
    case None
    with args show ?thesis by (simp add: main_def)
  next
    case (Some data)
    show ?thesis
    proof (cases "dict_get data ''result'' (JList [])")
      case (Inl e)
      with args Some show ?thesis by (simp add: main_def)
    next
      case (Inr v)
      show ?thesis
      proof (cases "\<exists>events. v = JList events")
        case False
        with args Some Inr show ?thesis by (cases v) (simp_all add: main_def)
      next
        case True
        then obtain events where v: "v = JList events" ..
        show ?thesis
        proof (cases "main_loop env 0 (start_state w events) events")
          case (Continue st)
          with args Some Inr v show ?thesis by (auto simp: main_def)
        next
          case (Uncaught e st)
          with args Some Inr v show ?thesis by (simp add: main_def)
        qed
      qed
    qed
  qed
qed

subsection \<open>The whole run\<close>

lemma main_reaches_loop:
  assumes "reaches_loop w events"
  shows "main env w =
     (case main_loop env 0 (start_state w events) events of
        Uncaught e st \<Rightarrow> \<lparr>exit_code = 1, committed = db w, effects = trace st\<rparr>
      | Continue st \<Rightarrow>
          if \<not> commit_ok w
          then \<lparr>exit_code = 1, committed = db w, effects = trace st @ [Commit]\<rparr>
          else \<lparr>exit_code = 0, committed = table st,
                effects = trace st @ [Commit, Close, Close,
                            Print (Complete (synced st) (errors st))]\<rparr>)"
proof -
  from assms have a: "\<not> length (argv w) < 2" and u: "find_db_url w \<noteq> []"
    and c: "connect_ok w (find_db_url w)"
    by (simp_all add: reaches_loop_def)
  from assms obtain data where d: "read_json w (argv w ! 1) = Some data"
    and r: "dict_get data ''result'' (JList []) = Inr (JList events)"
    by (auto simp: reaches_loop_def split: option.splits)
  show ?thesis
    unfolding main_def using a u c d r by simp
qed

lemma main_completed:
  assumes "reaches_loop w events" and "commit_ok w"
    and "main_loop env 0 (start_state w events) events = Continue st"
  shows "main env w =
     \<lparr>exit_code = 0, committed = table st,
      effects = trace st @ [Commit, Close, Close, Print (Complete (synced st) (errors st))]\<rparr>"
  using assms(2,3) unfolding main_reaches_loop [OF assms(1)] by simp

lemma find_db_url_empty:
  "find_db_url w = [] \<longleftrightarrow>
     (environ_DATABASE_URL w = None \<or> environ_DATABASE_URL w = Some [])
     \<and> (dotenv w = None \<or> (\<exists>lines. dotenv w = Some lines \<and> dotenv_url lines = []))"
  by (auto simp: find_db_url_def Let_def split: option.splits)

lemma process_event_counters:
  assumes "process_event env t st event = Continue st1"
  shows "(synced st1 = synced st + 1 \<and> errors st1 = errors st)
         \<or> (synced st1 = synced st \<and> errors st1 = errors st + 1)"
proof (cases "is_record event")
  case True
  from process_event_record [OF True, of env t st] assms show ?thesis by auto
next
  case False
  from process_event_not_record [OF False, of env t st] assms show ?thesis by simp
qed

lemma main_loop_counters:
  assumes "main_loop env i st events = Continue st'"
  shows "synced st' + errors st' = synced st + errors st + int (length events)
         \<and> synced st \<le> synced st' \<and> errors st \<le> errors st'"
  using assms
proof (induction events arbitrary: i st)
  case Nil
  then show ?case by simp
next
  case (Cons event events)
  from Cons.prems obtain st1
    where p: "process_event env (now env i) st event = Continue st1"
      and l: "main_loop env (Suc i) st1 events = Continue st'"
    by (auto split: run.splits)
  from process_event_counters [OF p] Cons.IH [OF l] show ?case by auto
qed

lemma process_event_reports:
  assumes "process_event env t st event = Continue st1 \<or> process_event env t st event = Uncaught x st1"
  shows "filter is_report (trace st1) = filter is_report (trace st)"
proof (cases "is_record event")
  case False
  from process_event_not_record [OF False, of env t st] assms show ?thesis by auto
next
  case True
  then obtain kvs where ev: "event = JDict kvs" by (cases event) simp_all
  show ?thesis
  proof (cases "import_event env t (table st) event")
    case (Inl e)
    from process_event_err [OF Inl [unfolded ev]] assms ev show ?thesis by auto
  next
    case (Inr tbl')
    from process_event_ok [OF Inr] assms show ?thesis by auto
  qed
qed

lemma main_loop_reports:
  assumes "main_loop env i st events = Continue st' \<or> main_loop env i st events = Uncaught x st'"
  shows "filter is_report (trace st') = filter is_report (trace st)"
  using assms
proof (induction events arbitrary: i st)
  case Nil
  then show ?case by simp
next
  case (Cons event events)
  show ?case
  proof (cases "process_event env (now env i) st event")
    case (Continue st1)
    with Cons.prems
    have "main_loop env (Suc i) st1 events = Continue st' \<or> main_loop env (Suc i) st1 events = Uncaught x st'"
      by simp
    from Cons.IH [OF this] process_event_reports [OF disjI1, OF Continue] show ?thesis by simp
  next
    case (Uncaught e1 st1)
    with Cons.prems have "st1 = st'" by simp
    with process_event_reports [OF disjI2, OF Uncaught] show ?thesis by simp
  qed
qed

lemma main_reports:
  assumes "reaches_loop w events"
  shows "filter is_report (effects (main env w)) =
     (case main_loop env 0 (start_state w events) events of
        Uncaught e st \<Rightarrow> []
      | Continue st \<Rightarrow>
          if commit_ok w then [Print (Complete (synced st) (errors st))] else [])"
proof (cases "main_loop env 0 (start_state w events) events")
  case (Continue st)
  from main_loop_reports [OF disjI1, OF Continue]
  have "filter is_report (trace st) = []" by (simp add: start_state_def)
  with Continue show ?thesis
    unfolding main_reaches_loop [OF assms] by simp
next
  case (Uncaught e st)
  from main_loop_reports [OF disjI2, OF Uncaught]
  have "filter is_report (trace st) = []" by (simp add: start_state_def)
  with Uncaught show ?thesis
    unfolding main_reaches_loop [OF assms] by simp
qed

text \<open>
  An exception raised on an element that is an object is counted and the loop goes on;
  for three such elements of which the second raises, the run reports 2 and 1.
\<close>

lemma record_error_isolated:
  "(import_event env (now env i) (table st) (JDict kvs) = Inl e \<longrightarrow>
      (\<exists>st1. process_event env (now env i) st (JDict kvs) = Continue st1
         \<and> errors st1 = errors st + 1 \<and> synced st1 = synced st \<and> table st1 = table st
         \<and> last (trace st1)
             = Print (ErrorImporting
                 (case map_of kvs ''id'' of Some v \<Rightarrow> v | None \<Rightarrow> JStr ''unknown'') e)
         \<and> main_loop env i st (JDict kvs # rest) = main_loop env (Suc i) st1 rest))
   \<and> (reaches_loop w [a, b, c] \<and> commit_ok w \<and> is_record b
       \<and> import_event env (now env 0) (db w) a = Inr tbl1
       \<and> import_event env (now env 1) tbl1 b = Inl e'
       \<and> import_event env (now env 2) tbl1 c = Inr tbl3 \<longrightarrow>
      exit_code (main env w) = 0 \<and> committed (main env w) = tbl3
      \<and> last (effects (main env w)) = Print (Complete 2 1))"
proof (intro conjI impI)
  assume "import_event env (now env i) (table st) (JDict kvs) = Inl e"
  from process_event_err [OF this] obtain tr
    where p: "process_event env (now env i) st (JDict kvs) =
             Continue (st\<lparr>trace := tr @ [Print (ErrorImporting
                   (case map_of kvs ''id'' of Some v \<Rightarrow> v | None \<Rightarrow> JStr ''unknown'') e)],
                 errors := errors st + 1\<rparr>)"
    by (elim exE conjE)
  let ?st1 = "st\<lparr>trace := tr @ [Print (ErrorImporting
                   (case map_of kvs ''id'' of Some v \<Rightarrow> v | None \<Rightarrow> JStr ''unknown'') e)],
                 errors := errors st + 1\<rparr>"
  have "main_loop env i st (JDict kvs # rest) = main_loop env (Suc i) ?st1 rest"
    using p by simp
  with p show "\<exists>st1. process_event env (now env i) st (JDict kvs) = Continue st1
         \<and> errors st1 = errors st + 1 \<and> synced st1 = synced st \<and> table st1 = table st
         \<and> last (trace st1)
             = Print (ErrorImporting
                 (case map_of kvs ''id'' of Some v \<Rightarrow> v | None \<Rightarrow> JStr ''unknown'') e)
         \<and> main_loop env i st (JDict kvs # rest) = main_loop env (Suc i) st1 rest"
    by (intro exI [of _ ?st1]) simp
next
  assume a: "reaches_loop w [a, b, c] \<and> commit_ok w \<and> is_record b
       \<and> import_event env (now env 0) (db w) a = Inr tbl1
       \<and> import_event env (now env 1) tbl1 b = Inl e'
       \<and> import_event env (now env 2) tbl1 c = Inr tbl3"
  then obtain kvs where b: "b = JDict kvs" by (cases b) simp_all
  let ?s0 = "start_state w [a, b, c]"
  from a have "import_event env (now env 0) (table ?s0) a = Inr tbl1"
    by (simp add: start_state_def)
  from process_event_ok [OF this] obtain p1
    where 1: "process_event env (now env 0) ?s0 a =
             Continue (?s0\<lparr>trace := trace ?s0 @ [Execute p1], table := tbl1, synced := synced ?s0 + 1\<rparr>)"
    by (elim exE conjE)
  let ?s1 = "?s0\<lparr>trace := trace ?s0 @ [Execute p1], table := tbl1, synced := synced ?s0 + 1\<rparr>"
  from a b have "import_event env (now env 1) (table ?s1) (JDict kvs) = Inl e'" by simp
  from process_event_err [OF this] obtain tr
    where 2: "process_event env (now env 1) ?s1 b =
             Continue (?s1\<lparr>trace := tr @ [Print (ErrorImporting
                   (case map_of kvs ''id'' of Some v \<Rightarrow> v | None \<Rightarrow> JStr ''unknown'') e')],
                 errors := errors ?s1 + 1\<rparr>)"
    unfolding b by (elim exE conjE)
  let ?s2 = "?s1\<lparr>trace := tr @ [Print (ErrorImporting
                   (case map_of kvs ''id'' of Some v \<Rightarrow> v | None \<Rightarrow> JStr ''unknown'') e')],
                 errors := errors ?s1 + 1\<rparr>"
  from a have "import_event env (now env 2) (table ?s2) c = Inr tbl3" by simp
  from process_event_ok [OF this] obtain p3
    where 3: "process_event env (now env 2) ?s2 c =
             Continue (?s2\<lparr>trace := trace ?s2 @ [Execute p3], table := tbl3, synced := synced ?s2 + 1\<rparr>)"
    by (elim exE conjE)
  let ?s3 = "?s2\<lparr>trace := trace ?s2 @ [Execute p3], table := tbl3, synced := synced ?s2 + 1\<rparr>"
  have two: "Suc (Suc 0) = 2" by simp
  have l: "main_loop env 0 ?s0 [a, b, c] = Continue ?s3"
    using 1 2 3 by (simp add: two)
  from a have r: "reaches_loop w [a, b, c]" and k: "commit_ok w" by simp_all
  have m: "main env w =
     \<lparr>exit_code = 0, committed = table ?s3,
      effects = trace ?s3 @ [Commit, Close, Close, Print (Complete (synced ?s3) (errors ?s3))]\<rparr>"
    by (rule main_completed [OF r k l])
  show "exit_code (main env w) = 0" unfolding m by simp
  show "committed (main env w) = tbl3" unfolding m by simp
  show "last (effects (main env w)) = Print (Complete 2 1)"
    unfolding m by (simp add: start_state_def)
qed

text \<open>
  An element that is not an object ends the loop: the first of them raises in the
  handler.
\<close>

lemma main_loop_not_record:
  assumes "event \<in> set events" and "\<not> is_record event"
  shows "\<exists>st'. main_loop env i st events = Uncaught AttributeError st'"
  using assms(1)
proof (induction events arbitrary: i st)
  case Nil
  then show ?case by simp
next
  case (Cons e es)
  show ?case
  proof (cases "is_record e")
    case False
    from process_event_not_record [OF False, of env "now env i" st]
    show ?thesis by simp
  next
    case True
    with assms(2) have "event \<noteq> e" by auto
    with Cons.prems have m: "event \<in> set es" by simp
    from process_event_record [OF True, of env "now env i" st] obtain st1
      where p: "process_event env (now env i) st e = Continue st1"
      by (elim exE conjE)
    from Cons.IH [OF m, of "Suc i" st1] p show ?thesis by simp
  qed
qed

section \<open>The properties of the specification\<close>

subsection \<open>C1: one row per key\<close>

text \<open>
  Claim C1. Importing a record into a table whose unique key holds writes one row,
  stamped with the server's current time. If a row with the record's key exists, that
  row takes the new values in every column other than the key, no row is added and
  the other rows stay as they are; otherwise the new row is added. Afterwards the
  unique key still holds and exactly one row carries the record's key. A record whose
  \<^verbatim>\<open>id\<close> is a string, or absent, has a key that is not NULL. Over a whole run: if
  the unique key holds in the table before the run, it holds in the committed table
  after it.

  The key is compared as the value that was sent. What the server's column type and
  collation identify beyond that, and a NULL key (from an \<^verbatim>\<open>id\<close> that is JSON
  \<^verbatim>\<open>null\<close>, which conflicts with nothing in SQL), are outside the statement.
\<close>

theorem C1_one_row_per_key:
  "(unique_key tbl \<and> import_event env t tbl event = Inr tbl' \<longrightarrow>
      (\<exists>r. written_row env t event = Some r \<and> syncedAt r = t \<and> unique_key tbl'
         \<and> (if googleEventId r \<noteq> SqlNull \<and> googleEventId r \<in> googleEventId ` set tbl
            then tbl' = map (\<lambda>x. if googleEventId x = googleEventId r then r else x) tbl
            else tbl' = tbl @ [r])
         \<and> (googleEventId r \<noteq> SqlNull \<longrightarrow>
              filter (\<lambda>x. googleEventId x = googleEventId r) tbl' = [r])
         \<and> (\<forall>kvs. event = JDict kvs
                \<and> (map_of kvs ''id'' = None \<or> (\<exists>s. map_of kvs ''id'' = Some (JStr s))) \<longrightarrow>
              googleEventId r \<noteq> SqlNull)))
   \<and> (unique_key (db w) \<longrightarrow> unique_key (committed (main env w)))"
proof (intro conjI impI)
  assume a: "unique_key tbl \<and> import_event env t tbl event = Inr tbl'"
  then have u: "unique_key tbl" and i: "import_event env t tbl event = Inr tbl'" by simp_all
  from i obtain kvs0 p r where ev: "event = JDict kvs0"
    and np: "normalize (fromisoformat env) (JDict kvs0) = Inr p" and p: "to_row t p = Inr r"
    and w: "written_row env t event = Some r" and t: "tbl' = upsert r tbl"
    by (rule import_event_rowE)
  have 1: "syncedAt r = t" by (rule to_row_InrD(11) [OF p])
  have 2: "unique_key tbl'" unfolding t by (rule unique_key_upsert [OF u])
  have 3: "if googleEventId r \<noteq> SqlNull \<and> googleEventId r \<in> googleEventId ` set tbl
            then tbl' = map (\<lambda>x. if googleEventId x = googleEventId r then r else x) tbl
            else tbl' = tbl @ [r]"
    unfolding t by (rule upsert_cases)
  have 4: "googleEventId r \<noteq> SqlNull \<longrightarrow>
              filter (\<lambda>x. googleEventId x = googleEventId r) tbl' = [r]"
    unfolding t using upsert_one_row [OF u] by (rule impI)
  have 5: "\<forall>kvs. event = JDict kvs
                \<and> (map_of kvs ''id'' = None \<or> (\<exists>s. map_of kvs ''id'' = Some (JStr s))) \<longrightarrow>
              googleEventId r \<noteq> SqlNull"
  proof (intro allI impI)
    fix kvs
    assume a: "event = JDict kvs
                \<and> (map_of kvs ''id'' = None \<or> (\<exists>s. map_of kvs ''id'' = Some (JStr s)))"
    from normalize_InrD [OF np]
    have "google_event_id p = (case map_of kvs0 ''id'' of Some v \<Rightarrow> v | None \<Rightarrow> JStr '''')"
      by (elim exE conjE)
    with a ev obtain s where "google_event_id p = JStr s" by auto
    with to_row_InrD(1) [OF p] show "googleEventId r \<noteq> SqlNull" by auto
  qed
  from w 1 2 3 4 5
  show "\<exists>r. written_row env t event = Some r \<and> syncedAt r = t \<and> unique_key tbl'
         \<and> (if googleEventId r \<noteq> SqlNull \<and> googleEventId r \<in> googleEventId ` set tbl
            then tbl' = map (\<lambda>x. if googleEventId x = googleEventId r then r else x) tbl
            else tbl' = tbl @ [r])
         \<and> (googleEventId r \<noteq> SqlNull \<longrightarrow>
              filter (\<lambda>x. googleEventId x = googleEventId r) tbl' = [r])
         \<and> (\<forall>kvs. event = JDict kvs
                \<and> (map_of kvs ''id'' = None \<or> (\<exists>s. map_of kvs ''id'' = Some (JStr s))) \<longrightarrow>
              googleEventId r \<noteq> SqlNull)"
    by (intro exI [of _ r] conjI)
next
  assume u: "unique_key (db w)"
  from main_committed [of env w] show "unique_key (committed (main env w))"
  proof
    assume "committed (main env w) = db w"
    with u show ?thesis by simp
  next
    assume "\<exists>events st. main_loop env 0 (start_state w events) events = Continue st
         \<and> committed (main env w) = table st"
    then obtain events st where l: "main_loop env 0 (start_state w events) events = Continue st"
      and c: "committed (main env w) = table st" by (elim exE conjE)
    from u have "unique_key (table (start_state w events))" by (simp add: start_state_def)
    from main_loop_unique_key [OF this disjI1, OF l] c show ?thesis by simp
  qed
qed

text \<open>
  An instance: the all-day event is imported into the empty table, which adds its
  row, and again one second later, which replaces the row by one with the later time
  stamp; a run over a file that holds the event twice commits that one row.
\<close>

theorem C1_one_row_per_key_witness:
  "unique_key ([] :: datetime row list)
   \<and> import_event plain_env 1000 [] all_day_event
      = Inr [all_day_row 1000 (day_start 2025 3 1) (day_end 2025 3 1)]
   \<and> (\<exists>r. written_row plain_env 1000 all_day_event = Some r \<and> syncedAt r = 1000
         \<and> [all_day_row 1000 (day_start 2025 3 1) (day_end 2025 3 1)] = [] @ [r])
   \<and> unique_key [all_day_row 1000 (day_start 2025 3 1) (day_end 2025 3 1)]
   \<and> import_event plain_env 1001 [all_day_row 1000 (day_start 2025 3 1) (day_end 2025 3 1)]
        all_day_event
      = Inr [all_day_row 1001 (day_start 2025 3 1) (day_end 2025 3 1)]
   \<and> (\<exists>s. map_of [(''id'', JStr ''e1''),
                    (''start'', JDict [(''date'', JStr ''2025-03-01'')]),
                    (''end'', JDict [(''date'', JStr ''2025-03-01'')])] ''id'' = Some (JStr s))
   \<and> (\<exists>r. written_row plain_env 1001 all_day_event = Some r \<and> syncedAt r = 1001
         \<and> googleEventId r \<noteq> SqlNull
         \<and> googleEventId r
              \<in> googleEventId ` set [all_day_row 1000 (day_start 2025 3 1) (day_end 2025 3 1)]
         \<and> [all_day_row 1001 (day_start 2025 3 1) (day_end 2025 3 1)]
             = map (\<lambda>x. if googleEventId x = googleEventId r then r else x)
                 [all_day_row 1000 (day_start 2025 3 1) (day_end 2025 3 1)]
         \<and> filter (\<lambda>x. googleEventId x = googleEventId r)
              [all_day_row 1001 (day_start 2025 3 1) (day_end 2025 3 1)] = [r])
   \<and> unique_key [all_day_row 1001 (day_start 2025 3 1) (day_end 2025 3 1)]
   \<and> unique_key (db (plain_world (JDict [(''result'', JList [all_day_event, all_day_event])])))
   \<and> unique_key (committed (main plain_env
         (plain_world (JDict [(''result'', JList [all_day_event, all_day_event])]))))
   \<and> committed (main plain_env
         (plain_world (JDict [(''result'', JList [all_day_event, all_day_event])])))
      = [all_day_row 1001 (day_start 2025 3 1) (day_end 2025 3 1)]"
proof -
  let ?old = "all_day_row 1000 (day_start 2025 3 1) (day_end 2025 3 1)"
  let ?new = "all_day_row 1001 (day_start 2025 3 1) (day_end 2025 3 1)"
  let ?w = "plain_world (JDict [(''result'', JList [all_day_event, all_day_event])])"
  let ?kvs = "[(''id'', JStr ''e1''),
               (''start'', JDict [(''date'', JStr ''2025-03-01'')]),
               (''end'', JDict [(''date'', JStr ''2025-03-01'')])]"
  note first = C1_one_row_per_key [where tbl = "[]" and env = plain_env and t = 1000
      and event = all_day_event and tbl' = "[?old]" and w = ?w]
  note again = C1_one_row_per_key [where tbl = "[?old]" and env = plain_env and t = 1001
      and event = all_day_event and tbl' = "[?new]" and w = ?w]
  have u0: "unique_key ([] :: datetime row list)"
    by (simp add: unique_key_def)
  have h0: "import_event plain_env 1000 [] all_day_event = Inr [?old]"
    by code_simp
  from first [THEN conjunct1, rule_format, OF conjI [OF u0 h0]] obtain r0
    where w0: "written_row plain_env 1000 all_day_event = Some r0"
      and s0: "syncedAt r0 = 1000"
      and u: "unique_key [?old]"
      and c0: "if googleEventId r0 \<noteq> SqlNull
                  \<and> googleEventId r0 \<in> googleEventId ` set ([] :: datetime row list)
               then [?old] = map (\<lambda>x. if googleEventId x = googleEventId r0 then r0 else x) []
               else [?old] = [] @ [r0]"
    by (elim exE conjE)
  from c0 have a0: "[?old] = [] @ [r0]" by simp
  from w0 s0 a0
  have 0: "\<exists>r. written_row plain_env 1000 all_day_event = Some r \<and> syncedAt r = 1000
         \<and> [?old] = [] @ [r]"
    by (intro exI [of _ r0] conjI)
  have h: "import_event plain_env 1001 [?old] all_day_event = Inr [?new]"
    by code_simp
  have i: "\<exists>s. map_of ?kvs ''id'' = Some (JStr s)" by simp
  from again [THEN conjunct1, rule_format, OF conjI [OF u h]] obtain r
    where w: "written_row plain_env 1001 all_day_event = Some r"
      and s: "syncedAt r = 1001"
      and k: "unique_key [?new]"
      and c: "if googleEventId r \<noteq> SqlNull \<and> googleEventId r \<in> googleEventId ` set [?old]
               then [?new] = map (\<lambda>x. if googleEventId x = googleEventId r then r else x) [?old]
               else [?new] = [?old] @ [r]"
      and f: "googleEventId r \<noteq> SqlNull \<longrightarrow>
                filter (\<lambda>x. googleEventId x = googleEventId r) [?new] = [r]"
      and n: "\<forall>kvs. all_day_event = JDict kvs
                \<and> (map_of kvs ''id'' = None \<or> (\<exists>s. map_of kvs ''id'' = Some (JStr s))) \<longrightarrow>
              googleEventId r \<noteq> SqlNull"
    by (elim exE conjE)
  have "all_day_event = JDict ?kvs" by (simp add: all_day_event_def)
  from n [rule_format, OF conjI [OF this disjI2 [OF i]]]
  have nn: "googleEventId r \<noteq> SqlNull" .
  note one = f [rule_format, OF nn]
  have "[?new] \<noteq> [?old] @ [r]" by simp
  with c have m: "googleEventId r \<in> googleEventId ` set [?old]"
    and a: "[?new] = map (\<lambda>x. if googleEventId x = googleEventId r then r else x) [?old]"
    by (simp_all split: if_splits)
  from w s nn m a one
  have 1: "\<exists>r. written_row plain_env 1001 all_day_event = Some r \<and> syncedAt r = 1001
         \<and> googleEventId r \<noteq> SqlNull
         \<and> googleEventId r \<in> googleEventId ` set [?old]
         \<and> [?new] = map (\<lambda>x. if googleEventId x = googleEventId r then r else x) [?old]
         \<and> filter (\<lambda>x. googleEventId x = googleEventId r) [?new] = [r]"
    by (intro exI [of _ r] conjI)
  have d: "unique_key (db ?w)"
    by (simp add: unique_key_def plain_world_def)
  have cm: "committed (main plain_env ?w) = [?new]"
    by code_simp
  from u0 h0 0 u h i 1 k d again [THEN conjunct2, rule_format, OF d] cm
  show ?thesis by (intro conjI)
qed

subsection \<open>C2: an element that is not an object stops the batch\<close>

text \<open>
  Claim C2 says that an exception raised while one record is normalised or written is
  caught, printed with the record's \<^verbatim>\<open>id\<close> and counted, and that the remaining
  records are processed. The code does not do this for every file it can receive: only
  \<^verbatim>\<open>events\<close> is checked to be a list (line 34), not its elements. On an element that
  is not an object (\<^verbatim>\<open>null\<close>, a number, a string, a list), \<^verbatim>\<open>event.get\<close> of line 70
  raises \<^verbatim>\<open>AttributeError\<close>, which line 108 catches; the handler then evaluates
  \<^verbatim>\<open>event.get('id', 'unknown')\<close> for its message (line 109), which raises the same
  error again, now outside any \<^verbatim>\<open>try\<close>. So for every file whose array holds such an
  element: one pass of the loop on that element ends the loop with the error uncaught
  and the state unchanged (no error counted, no line printed), and the run ends with
  code 1, with the table as it was before the run (nothing is committed, also not
  the events before that element) and with no report of the counters.
\<close>

theorem C2_element_not_a_record:
  assumes "reaches_loop w events" and "event \<in> set events" and "\<not> is_record event"
  shows "normalize (fromisoformat env) event = Inl AttributeError
       \<and> handler st event AttributeError = Uncaught AttributeError st
       \<and> process_event env t st event = Uncaught AttributeError st
       \<and> exit_code (main env w) = 1
       \<and> committed (main env w) = db w
       \<and> filter is_report (effects (main env w)) = []"
proof (intro conjI)
  from assms(3) show "normalize (fromisoformat env) event = Inl AttributeError"
    by (cases event) (simp_all add: normalize_def)
  from assms(3) show "handler st event AttributeError = Uncaught AttributeError st"
    by (rule handler_not_record)
  from assms(3) show "process_event env t st event = Uncaught AttributeError st"
    by (rule process_event_not_record)
  from main_loop_not_record [OF assms(2,3), of env 0 "start_state w events"] obtain st'
    where l: "main_loop env 0 (start_state w events) events = Uncaught AttributeError st'"
    by (elim exE)
  show "exit_code (main env w) = 1"
    unfolding main_reaches_loop [OF assms(1)] l by simp
  show "committed (main env w) = db w"
    unfolding main_reaches_loop [OF assms(1)] l by simp
  show "filter is_report (effects (main env w)) = []"
    unfolding main_reports [OF assms(1)] l by simp
qed

text \<open>
  An instance: the file \<^verbatim>\<open>{"result": [e1, null, e2]}\<close>, where the events \<open>e1\<close> and
  \<open>e2\<close> import when they are alone. The statement for \<open>e1\<close> is executed, the run
  stops at \<^verbatim>\<open>null\<close>, and the table stays empty.
\<close>

theorem C2_element_not_a_record_witness:
  "reaches_loop (plain_world null_element_file) null_element_events
   \<and> JNull \<in> set null_element_events
   \<and> \<not> is_record JNull
   \<and> normalize (fromisoformat plain_env) JNull = Inl AttributeError
   \<and> handler (start_state (plain_world null_element_file) null_element_events) JNull
         AttributeError
       = Uncaught AttributeError (start_state (plain_world null_element_file) null_element_events)
   \<and> process_event plain_env (now plain_env 1)
         (start_state (plain_world null_element_file) null_element_events) JNull
       = Uncaught AttributeError (start_state (plain_world null_element_file) null_element_events)
   \<and> exit_code (main plain_env (plain_world null_element_file)) = 1
   \<and> committed (main plain_env (plain_world null_element_file))
       = db (plain_world null_element_file)
   \<and> filter is_report (effects (main plain_env (plain_world null_element_file))) = []
   \<and> import_event plain_env (now plain_env 0) (db (plain_world null_element_file)) all_day_event
       = Inr [all_day_row 1000 (day_start 2025 3 1) (day_end 2025 3 1)]
   \<and> import_event plain_env (now plain_env 2)
         [all_day_row 1000 (day_start 2025 3 1) (day_end 2025 3 1)] timed_event
       = Inr [all_day_row 1000 (day_start 2025 3 1) (day_end 2025 3 1), timed_row 1002]
   \<and> main plain_env (plain_world null_element_file)
       = \<lparr>exit_code = 1, committed = [],
          effects = [Print (Found 3), Connect ''mysql://user:pw@localhost:3306/portal'',
                     Execute all_day_params]\<rparr>"
proof -
  let ?w = "plain_world null_element_file"
  let ?st = "start_state ?w null_element_events"
  let ?r1 = "all_day_row 1000 (day_start 2025 3 1) (day_end 2025 3 1)"
  have r: "reaches_loop ?w null_element_events"
    by code_simp
  have m: "JNull \<in> set null_element_events"
    by (simp add: null_element_events_def)
  have n: "\<not> is_record JNull"
    by simp
  note inst = C2_element_not_a_record [OF r m n, where env = plain_env and st = ?st
      and t = "now plain_env 1"]
  have i1: "import_event plain_env (now plain_env 0) (db ?w) all_day_event = Inr [?r1]"
    by code_simp
  have i3: "import_event plain_env (now plain_env 2) [?r1] timed_event
              = Inr [?r1, timed_row 1002]"
    by code_simp
  have v: "main plain_env ?w
       = \<lparr>exit_code = 1, committed = [],
          effects = [Print (Found 3), Connect ''mysql://user:pw@localhost:3306/portal'',
                     Execute all_day_params]\<rparr>"
    by code_simp
  from r m n inst [THEN conjunct1] inst [THEN conjunct2, THEN conjunct1]
    inst [THEN conjunct2, THEN conjunct2, THEN conjunct1]
    inst [THEN conjunct2, THEN conjunct2, THEN conjunct2, THEN conjunct1]
    inst [THEN conjunct2, THEN conjunct2, THEN conjunct2, THEN conjunct2, THEN conjunct1]
    inst [THEN conjunct2, THEN conjunct2, THEN conjunct2, THEN conjunct2, THEN conjunct2]
    i1 i3 v
  show ?thesis by (intro conjI)
qed

subsection \<open>C3: resolution of the start and end times\<close>

text \<open>
  Claim C3 says that the \<^verbatim>\<open>dateTime\<close> field is taken when it is present. Line 78
  takes it when it is true in Python's sense: for a \<^verbatim>\<open>start\<close> with an empty
  \<^verbatim>\<open>dateTime\<close> and a \<^verbatim>\<open>date\<close>, the script resolves the time from the date, where
  the claim's reading gives the empty string, and a row is stored whose start is that
  date at midnight.
\<close>

theorem C3_counterexample:
  "resolve_time ''T00:00:00+00:00''
      (JDict [(''dateTime'', JStr ''''), (''date'', JStr ''2025-03-01'')])
     = Inr (JStr ''2025-03-01T00:00:00+00:00'')
   \<and> spec_resolve_time ''T00:00:00+00:00''
         [(''dateTime'', JStr ''''), (''date'', JStr ''2025-03-01'')] = JStr ''''
   \<and> resolve_time ''T00:00:00+00:00''
        (JDict [(''dateTime'', JStr ''''), (''date'', JStr ''2025-03-01'')])
       \<noteq> Inr (spec_resolve_time ''T00:00:00+00:00''
                 [(''dateTime'', JStr ''''), (''date'', JStr ''2025-03-01'')])
   \<and> map_option startTime (written_row plain_env 1000 empty_dateTime_event)
       = Some \<lparr>year = 2025, month = 3, day = 1, hour = 0, minute = 0, second = 0,
               utcoffset_minutes = 0\<rparr>"
proof (intro conjI)
  show "map_option startTime (written_row plain_env 1000 empty_dateTime_event)
       = Some \<lparr>year = 2025, month = 3, day = 1, hour = 0, minute = 0, second = 0,
               utcoffset_minutes = 0\<rparr>"
    by code_simp
qed (simp_all add: resolve_time_def spec_resolve_time_def)

text \<open>
  Claim C3, amended. For a record that is imported, \<^verbatim>\<open>start\<close> and \<^verbatim>\<open>end\<close> are
  objects, and the text handed to the parser (after replacing \<^verbatim>\<open>Z\<close>) is: the value
  of \<^verbatim>\<open>dateTime\<close> if the field is present and true in Python's sense (not empty);
  otherwise the \<^verbatim>\<open>date\<close> field followed by \<^verbatim>\<open>T00:00:00+00:00\<close> for the start and
  \<^verbatim>\<open>T23:59:59+00:00\<close> for the end; otherwise \<^verbatim>\<open>2026-01-01\<close> followed by the same.
  The stored times are what the parser returns for these texts. So, with any parser
  that reads \<^verbatim>\<open>2025-03-01T00:00:00+00:00\<close> and \<^verbatim>\<open>2025-03-01T23:59:59+00:00\<close>, and a
  server that does not refuse the row, the event
  \<^verbatim>\<open>{id: "e1", start: {date: "2025-03-01"}, end: {date: "2025-03-01"}}\<close> is stored
  with \<^verbatim>\<open>isAllDay\<close> true and these two times.
\<close>

theorem C3_time_resolution:
  "(import_event env t tbl (JDict kvs) = Inr tbl' \<longrightarrow>
      (\<exists>start en r st et.
          (case map_of kvs ''start'' of Some v \<Rightarrow> v | None \<Rightarrow> JDict []) = JDict start
        \<and> (case map_of kvs ''end'' of Some v \<Rightarrow> v | None \<Rightarrow> JDict []) = JDict en
        \<and> written_row env t (JDict kvs) = Some r \<and> r \<in> set tbl'
        \<and> JStr st =
            (let synthesized = JStr (py_str (case map_of start ''date'' of
                                     Some d \<Rightarrow> d | None \<Rightarrow> JStr ''2026-01-01'') @ ''T00:00:00+00:00'')
             in case map_of start ''dateTime'' of
                  Some v \<Rightarrow> if truthy v then v else synthesized
                | None \<Rightarrow> synthesized)
        \<and> fromisoformat env (replace_Z st) = Some (startTime r)
        \<and> JStr et =
            (let synthesized = JStr (py_str (case map_of en ''date'' of
                                     Some d \<Rightarrow> d | None \<Rightarrow> JStr ''2026-01-01'') @ ''T23:59:59+00:00'')
             in case map_of en ''dateTime'' of
                  Some v \<Rightarrow> if truthy v then v else synthesized
                | None \<Rightarrow> synthesized)
        \<and> fromisoformat env (replace_Z et) = Some (endTime r)))
   \<and> (fromisoformat env ''2025-03-01T00:00:00+00:00'' = Some t0
      \<and> fromisoformat env ''2025-03-01T23:59:59+00:00'' = Some t1
      \<and> \<not> server_rejects env tbl (all_day_row t t0 t1) \<longrightarrow>
        import_event env t tbl all_day_event = Inr (upsert (all_day_row t t0 t1) tbl)
        \<and> all_day_row t t0 t1 \<in> set (upsert (all_day_row t t0 t1) tbl))"
proof (intro conjI impI)
  assume "import_event env t tbl (JDict kvs) = Inr tbl'"
  then obtain p r
    where p: "normalize (fromisoformat env) (JDict kvs) = Inr p"
    and r: "to_row t p = Inr r"
    and w: "written_row env t (JDict kvs) = Some r" and m: "r \<in> set tbl'"
    by (rule import_record_rowE)
  from normalize_InrD [OF p] obtain start en v1 v2
    where s: "(case map_of kvs ''start'' of Some v \<Rightarrow> v | None \<Rightarrow> JDict []) = JDict start"
      and e: "(case map_of kvs ''end'' of Some v \<Rightarrow> v | None \<Rightarrow> JDict []) = JDict en"
      and rs: "resolve_time ''T00:00:00+00:00'' (JDict start) = Inr v1"
      and ps: "parse_datetime (fromisoformat env) v1 = Inr (start_dt p)"
      and re: "resolve_time ''T23:59:59+00:00'' (JDict en) = Inr v2"
      and pe: "parse_datetime (fromisoformat env) v2 = Inr (end_dt p)"
    by (elim exE conjE)
  from time_resolution [OF rs ps] to_row_InrD(4) [OF r] obtain st
    where st: "JStr st =
            (let synthesized = JStr (py_str (case map_of start ''date'' of
                                     Some d \<Rightarrow> d | None \<Rightarrow> JStr ''2026-01-01'') @ ''T00:00:00+00:00'')
             in case map_of start ''dateTime'' of
                  Some v \<Rightarrow> if truthy v then v else synthesized
                | None \<Rightarrow> synthesized)"
      and st': "fromisoformat env (replace_Z st) = Some (startTime r)"
    by (elim exE conjE) simp
  from time_resolution [OF re pe] to_row_InrD(5) [OF r] obtain et
    where et: "JStr et =
            (let synthesized = JStr (py_str (case map_of en ''date'' of
                                     Some d \<Rightarrow> d | None \<Rightarrow> JStr ''2026-01-01'') @ ''T23:59:59+00:00'')
             in case map_of en ''dateTime'' of
                  Some v \<Rightarrow> if truthy v then v else synthesized
                | None \<Rightarrow> synthesized)"
      and et': "fromisoformat env (replace_Z et) = Some (endTime r)"
    by (elim exE conjE) simp
  from s e w m st st' et et'
  show "\<exists>start en r st et.
          (case map_of kvs ''start'' of Some v \<Rightarrow> v | None \<Rightarrow> JDict []) = JDict start
        \<and> (case map_of kvs ''end'' of Some v \<Rightarrow> v | None \<Rightarrow> JDict []) = JDict en
        \<and> written_row env t (JDict kvs) = Some r \<and> r \<in> set tbl'
        \<and> JStr st =
            (let synthesized = JStr (py_str (case map_of start ''date'' of
                                     Some d \<Rightarrow> d | None \<Rightarrow> JStr ''2026-01-01'') @ ''T00:00:00+00:00'')
             in case map_of start ''dateTime'' of
                  Some v \<Rightarrow> if truthy v then v else synthesized
                | None \<Rightarrow> synthesized)
        \<and> fromisoformat env (replace_Z st) = Some (startTime r)
        \<and> JStr et =
            (let synthesized = JStr (py_str (case map_of en ''date'' of
                                     Some d \<Rightarrow> d | None \<Rightarrow> JStr ''2026-01-01'') @ ''T23:59:59+00:00'')
             in case map_of en ''dateTime'' of
                  Some v \<Rightarrow> if truthy v then v else synthesized
                | None \<Rightarrow> synthesized)
        \<and> fromisoformat env (replace_Z et) = Some (endTime r)"
    by (intro exI [of _ start] exI [of _ en] exI [of _ r] exI [of _ st] exI [of _ et] conjI)
next
  assume a: "fromisoformat env ''2025-03-01T00:00:00+00:00'' = Some t0
      \<and> fromisoformat env ''2025-03-01T23:59:59+00:00'' = Some t1
      \<and> \<not> server_rejects env tbl (all_day_row t t0 t1)"
  then have "written_row env t all_day_event = Some (all_day_row t t0 t1)"
    by (intro written_all_day_event) simp_all
  with a show "import_event env t tbl all_day_event = Inr (upsert (all_day_row t t0 t1) tbl)"
    by (intro import_event_InrI) simp_all
next
  show "all_day_row t t0 t1 \<in> set (upsert (all_day_row t t0 t1) tbl)"
    by (rule upsert_mem)
qed

text \<open>
  An instance: the same event with the stand-in parser, which reads the two texts as
  midnight and as the last second of 1 March 2025.
\<close>

theorem C3_time_resolution_witness:
  "import_event plain_env 1000 [] all_day_event
     = Inr [all_day_row 1000 (day_start 2025 3 1) (day_end 2025 3 1)]
   \<and> fromisoformat plain_env ''2025-03-01T00:00:00+00:00'' = Some (day_start 2025 3 1)
   \<and> fromisoformat plain_env ''2025-03-01T23:59:59+00:00'' = Some (day_end 2025 3 1)
   \<and> \<not> server_rejects plain_env [] (all_day_row 1000 (day_start 2025 3 1) (day_end 2025 3 1))
   \<and> all_day_row 1000 (day_start 2025 3 1) (day_end 2025 3 1)
       \<in> set (upsert (all_day_row 1000 (day_start 2025 3 1) (day_end 2025 3 1)) [])
   \<and> (\<exists>r. written_row plain_env 1000 all_day_event = Some r
          \<and> fromisoformat plain_env ''2025-03-01T00:00:00+00:00'' = Some (startTime r)
          \<and> fromisoformat plain_env ''2025-03-01T23:59:59+00:00'' = Some (endTime r))"
proof -
  let ?kvs = "[(''id'', JStr ''e1''),
               (''start'', JDict [(''date'', JStr ''2025-03-01'')]),
               (''end'', JDict [(''date'', JStr ''2025-03-01'')])]"
  let ?row = "all_day_row 1000 (day_start 2025 3 1) (day_end 2025 3 1)"
  note inst = C3_time_resolution [of plain_env 1000 "[]" ?kvs "[?row]"
      "day_start 2025 3 1" "day_end 2025 3 1"]
  have h: "import_event plain_env 1000 [] all_day_event = Inr [?row]"
    by code_simp
  have p0: "fromisoformat plain_env ''2025-03-01T00:00:00+00:00'' = Some (day_start 2025 3 1)"
    by code_simp
  have p1: "fromisoformat plain_env ''2025-03-01T23:59:59+00:00'' = Some (day_end 2025 3 1)"
    by code_simp
  have a: "\<not> server_rejects plain_env [] ?row"
    by (simp add: plain_env_def)
  from inst [THEN conjunct2, rule_format, OF conjI [OF p0 conjI [OF p1 a]]]
  have m: "?row \<in> set (upsert ?row [])" by (rule conjunct2)
  from inst [THEN conjunct1, rule_format, OF h [unfolded all_day_event_def]]
  obtain start en r st et
    where s: "(case map_of ?kvs ''start'' of Some v \<Rightarrow> v | None \<Rightarrow> JDict []) = JDict start"
      and e: "(case map_of ?kvs ''end'' of Some v \<Rightarrow> v | None \<Rightarrow> JDict []) = JDict en"
      and w: "written_row plain_env 1000 (JDict ?kvs) = Some r"
      and st: "JStr st =
            (let synthesized = JStr (py_str (case map_of start ''date'' of
                                     Some d \<Rightarrow> d | None \<Rightarrow> JStr ''2026-01-01'') @ ''T00:00:00+00:00'')
             in case map_of start ''dateTime'' of
                  Some v \<Rightarrow> if truthy v then v else synthesized
                | None \<Rightarrow> synthesized)"
      and st': "fromisoformat plain_env (replace_Z st) = Some (startTime r)"
      and et: "JStr et =
            (let synthesized = JStr (py_str (case map_of en ''date'' of
                                     Some d \<Rightarrow> d | None \<Rightarrow> JStr ''2026-01-01'') @ ''T23:59:59+00:00'')
             in case map_of en ''dateTime'' of
                  Some v \<Rightarrow> if truthy v then v else synthesized
                | None \<Rightarrow> synthesized)"
      and et': "fromisoformat plain_env (replace_Z et) = Some (endTime r)"
    by (elim conjE exE)
  from s have "start = [(''date'', JStr ''2025-03-01'')]" by simp
  with st have "st = ''2025-03-01T00:00:00+00:00''" by simp
  with st' have 1: "fromisoformat plain_env ''2025-03-01T00:00:00+00:00'' = Some (startTime r)"
    by (simp add: replace_Z_def)
  from e have "en = [(''date'', JStr ''2025-03-01'')]" by simp
  with et have "et = ''2025-03-01T23:59:59+00:00''" by simp
  with et' have 2: "fromisoformat plain_env ''2025-03-01T23:59:59+00:00'' = Some (endTime r)"
    by (simp add: replace_Z_def)
  from w 1 2 have "\<exists>r. written_row plain_env 1000 all_day_event = Some r
          \<and> fromisoformat plain_env ''2025-03-01T00:00:00+00:00'' = Some (startTime r)
          \<and> fromisoformat plain_env ''2025-03-01T23:59:59+00:00'' = Some (endTime r)"
    unfolding all_day_event_def by (intro exI [of _ r] conjI)
  with h p0 p1 a m show ?thesis by (intro conjI)
qed

subsection \<open>C4: the all-day flag\<close>

text \<open>
  Claim C4. For a record that is imported, \<^verbatim>\<open>start\<close> (the empty object when the field
  is absent) is an object, and the stored \<^verbatim>\<open>isAllDay\<close> is true exactly when
  \<^verbatim>\<open>dateTime\<close> is not among its keys. So a start with a \<^verbatim>\<open>dateTime\<close> field stores
  false, and a start with only a \<^verbatim>\<open>date\<close> stores true.
\<close>

theorem C4_is_all_day:
  assumes "import_event env t tbl event = Inr tbl'"
  shows "\<exists>kvs start r. event = JDict kvs
           \<and> (case map_of kvs ''start'' of Some v \<Rightarrow> v | None \<Rightarrow> JDict []) = JDict start
           \<and> written_row env t event = Some r \<and> r \<in> set tbl'
           \<and> (isAllDay r \<longleftrightarrow> ''dateTime'' \<notin> fst ` set start)"
proof -
  from assms obtain kvs p r where ev: "event = JDict kvs"
    and p: "normalize (fromisoformat env) (JDict kvs) = Inr p"
    and r: "to_row t p = Inr r"
    and w: "written_row env t event = Some r" and m: "r \<in> set tbl'"
    by (rule import_event_rowE)
  from normalize_InrD [OF p] obtain start
    where s: "(case map_of kvs ''start'' of Some v \<Rightarrow> v | None \<Rightarrow> JDict []) = JDict start"
      and a: "is_all_day p = (map_of start ''dateTime'' = None)"
    by (elim exE conjE)
  from a to_row_InrD(6) [OF r] have "isAllDay r \<longleftrightarrow> ''dateTime'' \<notin> fst ` set start"
    by (simp add: map_of_eq_None_iff)
  with ev s w m show ?thesis
    by (intro exI [of _ kvs] exI [of _ start] exI [of _ r] conjI)
qed

text \<open>
  An instance: the event with a \<^verbatim>\<open>dateTime\<close> start is stored with the flag false.
\<close>

theorem C4_is_all_day_witness:
  "import_event plain_env 1000 [] timed_event = Inr [timed_row 1000]
   \<and> \<not> isAllDay (timed_row 1000)
   \<and> (\<exists>kvs start r. timed_event = JDict kvs
         \<and> (case map_of kvs ''start'' of Some v \<Rightarrow> v | None \<Rightarrow> JDict []) = JDict start
         \<and> written_row plain_env 1000 timed_event = Some r \<and> r \<in> set [timed_row 1000]
         \<and> (isAllDay r \<longleftrightarrow> ''dateTime'' \<notin> fst ` set start))"
proof -
  have h: "import_event plain_env 1000 [] timed_event = Inr [timed_row 1000]"
    by code_simp
  have n: "\<not> isAllDay (timed_row 1000)"
    by (simp add: timed_row_def sample_row_def)
  from h n C4_is_all_day [OF h] show ?thesis by (intro conjI)
qed

subsection \<open>C5: the summary\<close>

text \<open>
  Claim C5. For a record that is imported, the stored summary is a text of at most 500
  characters: the first 500 characters of the \<^verbatim>\<open>summary\<close> field when that is a string
  that is not empty (exactly 500 characters when the field is longer), and
  \<^verbatim>\<open>Untitled\<close> when the field is absent or the empty string.
\<close>

theorem C5_summary:
  assumes "import_event env t tbl (JDict kvs) = Inr tbl'"
  shows "\<exists>r title. written_row env t (JDict kvs) = Some r \<and> r \<in> set tbl'
           \<and> col_summary r = SqlText title \<and> length title \<le> 500
           \<and> (\<forall>s. map_of kvs ''summary'' = Some (JStr s) \<and> s \<noteq> [] \<longrightarrow>
                  title = take 500 s \<and> (500 < length s \<longrightarrow> length title = 500))
           \<and> (map_of kvs ''summary'' = None \<or> map_of kvs ''summary'' = Some (JStr []) \<longrightarrow>
                  title = ''Untitled'')"
proof -
  from assms obtain p r
    where p: "normalize (fromisoformat env) (JDict kvs) = Inr p"
    and r: "to_row t p = Inr r"
    and w: "written_row env t (JDict kvs) = Some r" and m: "r \<in> set tbl'"
    by (rule import_record_rowE)
  let ?field = "case map_of kvs ''summary'' of Some v \<Rightarrow> v | None \<Rightarrow> JStr ''Untitled''"
  from normalize_InrD [OF p]
  have "slice500 (py_or ?field (JStr ''Untitled'')) = Inr (summary p)" by (elim exE conjE)
  from stored_text [OF this to_row_InrD(2) [OF r]] obtain x
    where x: "py_or ?field (JStr ''Untitled'') = JStr x" and c: "col_summary r = SqlText (take 500 x)"
    by (elim exE conjE)
  have given: "\<forall>s. map_of kvs ''summary'' = Some (JStr s) \<and> s \<noteq> [] \<longrightarrow>
                  take 500 x = take 500 s \<and> (500 < length s \<longrightarrow> length (take 500 x) = 500)"
  proof (intro allI impI)
    fix s
    assume "map_of kvs ''summary'' = Some (JStr s) \<and> s \<noteq> []"
    with x have "x = s" by (simp add: py_or_def)
    then show "take 500 x = take 500 s \<and> (500 < length s \<longrightarrow> length (take 500 x) = 500)"
      by simp
  qed
  have untitled: "map_of kvs ''summary'' = None \<or> map_of kvs ''summary'' = Some (JStr []) \<longrightarrow>
                  take 500 x = ''Untitled''"
    using x by (auto simp: py_or_def)
  have short: "length (take 500 x) \<le> 500" by simp
  from w m c short given untitled show ?thesis
    by (intro exI [of _ r] exI [of _ "take 500 x"] conjI)
qed

text \<open>
  An instance: a summary of 501 characters is stored as its first 500.
\<close>

theorem C5_summary_witness:
  "import_event plain_env 1000 [] long_summary_event
     = Inr [sample_row ''e3'' (replicate 500 CHR ''x'') (day_start 2026 1 1) (day_end 2026 1 1)
              True ''[]'' 1000]
   \<and> map_of [(''id'', JStr ''e3''), (''summary'', JStr (replicate 501 CHR ''x''))] ''summary''
       = Some (JStr (replicate 501 CHR ''x''))
   \<and> 500 < length (replicate 501 CHR ''x'')
   \<and> (\<exists>r. written_row plain_env 1000 long_summary_event = Some r
         \<and> col_summary r = SqlText (take 500 (replicate 501 CHR ''x''))
         \<and> length (take 500 (replicate 501 CHR ''x'')) = 500)
   \<and> import_event plain_env 1001 [] empty_event
       = Inr [sample_row [] ''Untitled'' (day_start 2026 1 1) (day_end 2026 1 1) True ''[]'' 1001]
   \<and> map_of ([] :: (string \<times> json) list) ''summary'' = None
   \<and> (\<exists>r. written_row plain_env 1001 empty_event = Some r \<and> col_summary r = SqlText ''Untitled'')"
proof -
  let ?kvs = "[(''id'', JStr ''e3''), (''summary'', JStr (replicate 501 CHR ''x''))]"
  let ?s = "replicate 501 CHR ''x''"
  have h: "import_event plain_env 1000 [] long_summary_event
     = Inr [sample_row ''e3'' (replicate 500 CHR ''x'') (day_start 2026 1 1) (day_end 2026 1 1)
              True ''[]'' 1000]"
    by code_simp
  have f: "map_of ?kvs ''summary'' = Some (JStr ?s)" by simp
  have n: "?s \<noteq> []" by simp
  have l: "500 < length ?s" by simp
  from C5_summary [OF h [unfolded long_summary_event_def]] obtain r tx
    where w: "written_row plain_env 1000 (JDict ?kvs) = Some r"
      and c: "col_summary r = SqlText tx"
      and i: "\<forall>s. map_of ?kvs ''summary'' = Some (JStr s) \<and> s \<noteq> [] \<longrightarrow>
                  tx = take 500 s \<and> (500 < length s \<longrightarrow> length tx = 500)"
    by (elim exE conjE)
  from i [rule_format, OF conjI [OF f n]] l
  have t: "tx = take 500 ?s" and t': "length tx = 500" by simp_all
  from w c t t'
  have 1: "\<exists>r. written_row plain_env 1000 long_summary_event = Some r
         \<and> col_summary r = SqlText (take 500 ?s) \<and> length (take 500 ?s) = 500"
    unfolding long_summary_event_def by (intro exI [of _ r]) simp
  have h': "import_event plain_env 1001 [] empty_event
       = Inr [sample_row [] ''Untitled'' (day_start 2026 1 1) (day_end 2026 1 1) True ''[]'' 1001]"
    by code_simp
  have f': "map_of ([] :: (string \<times> json) list) ''summary'' = None" by simp
  from C5_summary [OF h' [unfolded empty_event_def]] obtain r' tx'
    where w': "written_row plain_env 1001 (JDict []) = Some r'"
      and c': "col_summary r' = SqlText tx'"
      and i': "map_of ([] :: (string \<times> json) list) ''summary'' = None
                \<or> map_of ([] :: (string \<times> json) list) ''summary'' = Some (JStr []) \<longrightarrow>
                  tx' = ''Untitled''"
    by (elim exE conjE)
  from i' [rule_format, OF disjI1 [OF f']] w' c'
  have 2: "\<exists>r. written_row plain_env 1001 empty_event = Some r \<and> col_summary r = SqlText ''Untitled''"
    unfolding empty_event_def by (intro exI [of _ r']) simp
  from h f l 1 h' f' 2 show ?thesis by (intro conjI)
qed

subsection \<open>C6: the attendees\<close>

text \<open>
  Claim C6. For a record that is imported, the stored \<^verbatim>\<open>attendees\<close> text is
  \<^verbatim>\<open>json.dumps\<close> of the list of the \<^verbatim>\<open>email\<close> values of the attendees, in the order
  of the input, keeping the attendees whose \<^verbatim>\<open>email\<close> is present and not empty. A
  record with no \<^verbatim>\<open>attendees\<close> field stores \<^verbatim>\<open>[]\<close>.
\<close>

theorem C6_attendees:
  assumes "import_event env t tbl (JDict kvs) = Inr tbl'"
  shows "\<exists>r as. written_row env t (JDict kvs) = Some r \<and> r \<in> set tbl'
           \<and> py_iter (case map_of kvs ''attendees'' of Some v \<Rightarrow> v | None \<Rightarrow> JList []) = Inr as
           \<and> col_attendees r = json_dumps (JList (List.map_filter kept_email as))
           \<and> (map_of kvs ''attendees'' = None \<longrightarrow> col_attendees r = ''[]'')"
proof -
  from assms obtain p r
    where p: "normalize (fromisoformat env) (JDict kvs) = Inr p"
    and r: "to_row t p = Inr r"
    and w: "written_row env t (JDict kvs) = Some r" and m: "r \<in> set tbl'"
    by (rule import_record_rowE)
  from normalize_InrD [OF p] obtain as emails
    where i: "py_iter (case map_of kvs ''attendees'' of Some v \<Rightarrow> v | None \<Rightarrow> JList []) = Inr as"
      and e: "attendee_emails as = Inr emails"
      and a: "attendees p = json_dumps (JList emails)"
    by (elim exE conjE)
  from a attendee_emails_Inr [OF e] to_row_InrD(8) [OF r]
  have c: "col_attendees r = json_dumps (JList (List.map_filter kept_email as))" by simp
  have d: "col_attendees r = ''[]''" if "map_of kvs ''attendees'' = None"
  proof -
    from i that have "as = []" by simp
    with c show ?thesis by (simp add: List.map_filter_simps intercalate_def)
  qed
  show ?thesis
    using w m i c d by (intro exI [of _ r] exI [of _ as] conjI impI)
qed

text \<open>
  An instance: of four attendees, one without \<^verbatim>\<open>email\<close> and one with an empty
  \<^verbatim>\<open>email\<close>, two are stored; and the event without attendees stores \<^verbatim>\<open>[]\<close>.
\<close>

theorem C6_attendees_witness:
  "import_event plain_env 1000 [] timed_event = Inr [timed_row 1000]
   \<and> List.map_filter kept_email
        [JDict [(''email'', JStr ''ann@example.org'')],
         JDict [(''displayName'', JStr ''Room 4'')],
         JDict [(''email'', JStr '''')],
         JDict [(''email'', JStr ''bob@example.org'')]]
       = [JStr ''ann@example.org'', JStr ''bob@example.org'']
   \<and> (\<exists>r. written_row plain_env 1000 timed_event = Some r
         \<and> col_attendees r = ''[\"ann@example.org\", \"bob@example.org\"]'')
   \<and> import_event plain_env 1001 [] all_day_event
        = Inr [all_day_row 1001 (day_start 2025 3 1) (day_end 2025 3 1)]
   \<and> map_of [(''id'', JStr ''e1''),
              (''start'', JDict [(''date'', JStr ''2025-03-01'')]),
              (''end'', JDict [(''date'', JStr ''2025-03-01'')])] ''attendees'' = None
   \<and> (\<exists>r. written_row plain_env 1001 all_day_event = Some r \<and> col_attendees r = ''[]'')"
proof -
  let ?as = "[JDict [(''email'', JStr ''ann@example.org'')],
         JDict [(''displayName'', JStr ''Room 4'')],
         JDict [(''email'', JStr '''')],
         JDict [(''email'', JStr ''bob@example.org'')]]"
  let ?kvs = "[(''id'', JStr ''e1''),
              (''start'', JDict [(''date'', JStr ''2025-03-01'')]),
              (''end'', JDict [(''date'', JStr ''2025-03-01'')])]"
  have h: "import_event plain_env 1000 [] timed_event = Inr [timed_row 1000]"
    by code_simp
  have k: "List.map_filter kept_email ?as = [JStr ''ann@example.org'', JStr ''bob@example.org'']"
    by (simp add: List.map_filter_simps)
  from C6_attendees [OF h [unfolded timed_event_def]] obtain r as
    where w: "written_row plain_env 1000 timed_event = Some r"
      and i: "py_iter (JList ?as) = Inr as"
      and c: "col_attendees r = json_dumps (JList (List.map_filter kept_email as))"
    unfolding timed_event_def by (elim exE conjE) simp
  from i have "as = ?as" by simp
  with c k have "col_attendees r = json_dumps (JList [JStr ''ann@example.org'', JStr ''bob@example.org''])"
    by simp
  also have "\<dots> = ''[\"ann@example.org\", \"bob@example.org\"]''"
    by code_simp
  finally have 1: "\<exists>r. written_row plain_env 1000 timed_event = Some r
         \<and> col_attendees r = ''[\"ann@example.org\", \"bob@example.org\"]''"
    using w by (intro exI [of _ r] conjI)
  have h': "import_event plain_env 1001 [] all_day_event
        = Inr [all_day_row 1001 (day_start 2025 3 1) (day_end 2025 3 1)]"
    by code_simp
  have n: "map_of ?kvs ''attendees'' = None" by simp
  from C6_attendees [OF h' [unfolded all_day_event_def]] obtain r'
    where w': "written_row plain_env 1001 (JDict ?kvs) = Some r'"
      and e: "map_of ?kvs ''attendees'' = None \<longrightarrow> col_attendees r' = ''[]''"
    by (elim exE conjE)
  from e [rule_format, OF n] w'
  have 2: "\<exists>r. written_row plain_env 1001 all_day_event = Some r \<and> col_attendees r = ''[]''"
    unfolding all_day_event_def by (intro exI [of _ r'] conjI)
  from h k 1 h' n 2 show ?thesis by (intro conjI)
qed

subsection \<open>C7: exit codes\<close>

text \<open>
  Claim C7. The run ends with code 1, with the table as it was and no effect other
  than printing (no connection, no statement, no commit), when there is no path
  argument, when the file cannot be read or parsed, when the parsed document is not an
  object or its \<^verbatim>\<open>result\<close> is not a list, and when no connection string is found.
  None is found exactly when the environment variable is unset or empty and the
  \<^verbatim>\<open>.env\<close> file is missing or gives no value. The run ends with code 0, and
  commits the table of the loop, when it reaches the loop, the loop ends and the
  commit succeeds, whatever the number of records that raised; the loop ends whenever
  every element is a record (a JSON object).
\<close>

theorem C7_exit_codes:
  "(length (argv w) < 2 \<longrightarrow>
      main env w = \<lparr>exit_code = 1, committed = db w, effects = [Print Usage]\<rparr>)
   \<and> (2 \<le> length (argv w) \<and> read_json w (argv w ! 1) = None \<longrightarrow>
      main env w = \<lparr>exit_code = 1, committed = db w, effects = []\<rparr>)
   \<and> (2 \<le> length (argv w) \<and> read_json w (argv w ! 1) = Some data \<and> \<not> is_record data \<longrightarrow>
      main env w = \<lparr>exit_code = 1, committed = db w, effects = []\<rparr>)
   \<and> (2 \<le> length (argv w) \<and> read_json w (argv w ! 1) = Some data
       \<and> dict_get data ''result'' (JList []) = Inr v \<and> \<not> is_array v \<longrightarrow>
      main env w = \<lparr>exit_code = 1, committed = db w, effects = [Print ExpectedArray]\<rparr>)
   \<and> (2 \<le> length (argv w) \<and> read_json w (argv w ! 1) = Some data
       \<and> dict_get data ''result'' (JList []) = Inr (JList events) \<and> find_db_url w = [] \<longrightarrow>
      main env w = \<lparr>exit_code = 1, committed = db w,
                    effects = [Print (Found (length events)), Print UrlNotFound]\<rparr>)
   \<and> (find_db_url w = [] \<longleftrightarrow>
        (environ_DATABASE_URL w = None \<or> environ_DATABASE_URL w = Some [])
        \<and> (dotenv w = None \<or> (\<exists>lines. dotenv w = Some lines \<and> dotenv_url lines = [])))
   \<and> (reaches_loop w events \<and> commit_ok w
       \<and> main_loop env 0 (start_state w events) events = Continue st \<longrightarrow>
      exit_code (main env w) = 0 \<and> committed (main env w) = table st)
   \<and> (reaches_loop w events \<and> (\<forall>e \<in> set events. is_record e) \<and> commit_ok w \<longrightarrow>
      exit_code (main env w) = 0)"
proof (intro conjI impI)
  show "main env w = \<lparr>exit_code = 1, committed = db w, effects = [Print Usage]\<rparr>"
    if "length (argv w) < 2"
    using that by (simp add: main_def)
  show "main env w = \<lparr>exit_code = 1, committed = db w, effects = []\<rparr>"
    if "2 \<le> length (argv w) \<and> read_json w (argv w ! 1) = None"
    using that by (simp add: main_def)
  show "main env w = \<lparr>exit_code = 1, committed = db w, effects = []\<rparr>"
    if "2 \<le> length (argv w) \<and> read_json w (argv w ! 1) = Some data \<and> \<not> is_record data"
    using that by (cases data) (simp_all add: main_def)
  show "main env w = \<lparr>exit_code = 1, committed = db w, effects = [Print ExpectedArray]\<rparr>"
    if "2 \<le> length (argv w) \<and> read_json w (argv w ! 1) = Some data
       \<and> dict_get data ''result'' (JList []) = Inr v \<and> \<not> is_array v"
    using that by (cases v) (simp_all add: main_def)
  show "main env w = \<lparr>exit_code = 1, committed = db w,
                    effects = [Print (Found (length events)), Print UrlNotFound]\<rparr>"
    if "2 \<le> length (argv w) \<and> read_json w (argv w ! 1) = Some data
       \<and> dict_get data ''result'' (JList []) = Inr (JList events) \<and> find_db_url w = []"
    using that by (simp add: main_def)
  show "find_db_url w = [] \<longleftrightarrow>
        (environ_DATABASE_URL w = None \<or> environ_DATABASE_URL w = Some [])
        \<and> (dotenv w = None \<or> (\<exists>lines. dotenv w = Some lines \<and> dotenv_url lines = []))"
    by (rule find_db_url_empty)
  show "exit_code (main env w) = 0" and "committed (main env w) = table st"
    if "reaches_loop w events \<and> commit_ok w
       \<and> main_loop env 0 (start_state w events) events = Continue st"
  proof -
    from that have "reaches_loop w events" and "commit_ok w"
      and "main_loop env 0 (start_state w events) events = Continue st" by simp_all
    from main_completed [OF this]
    show "exit_code (main env w) = 0" and "committed (main env w) = table st" by simp_all
  qed
  show "exit_code (main env w) = 0"
    if a: "reaches_loop w events \<and> (\<forall>e \<in> set events. is_record e) \<and> commit_ok w"
  proof -
    from a have r: "reaches_loop w events" and k: "commit_ok w"
      and e: "\<forall>e \<in> set events. is_record e" by simp_all
    from main_loop_records [OF e, of env 0 "start_state w events"] obtain st
      where "main_loop env 0 (start_state w events) events = Continue st" by (elim exE conjE)
    from main_completed [OF r k this] show ?thesis by simp
  qed
qed

text \<open>
  Instances: one run for each way of ending with code 1, and the sample file, where
  one record raises and the code is 0.
\<close>

theorem C7_exit_codes_witness:
  "length (argv ((plain_world three_events_file)\<lparr>argv := [''scripts/import-calendar.py'']\<rparr>)) < 2
   \<and> main plain_env ((plain_world three_events_file)\<lparr>argv := [''scripts/import-calendar.py'']\<rparr>)
       = \<lparr>exit_code = 1, committed = [], effects = [Print Usage]\<rparr>
   \<and> read_json ((plain_world three_events_file)\<lparr>read_json := (\<lambda>path. None)\<rparr>) ''mcp_result.json''
       = None
   \<and> main plain_env ((plain_world three_events_file)\<lparr>read_json := (\<lambda>path. None)\<rparr>)
       = \<lparr>exit_code = 1, committed = [], effects = []\<rparr>
   \<and> \<not> is_record (JList three_events)
   \<and> main plain_env (plain_world (JList three_events))
       = \<lparr>exit_code = 1, committed = [], effects = []\<rparr>
   \<and> \<not> is_array (JStr ''none'')
   \<and> main plain_env (plain_world (JDict [(''result'', JStr ''none'')]))
       = \<lparr>exit_code = 1, committed = [], effects = [Print ExpectedArray]\<rparr>
   \<and> find_db_url ((plain_world three_events_file)\<lparr>environ_DATABASE_URL := None\<rparr>) = []
   \<and> main plain_env ((plain_world three_events_file)\<lparr>environ_DATABASE_URL := None\<rparr>)
       = \<lparr>exit_code = 1, committed = [], effects = [Print (Found 3), Print UrlNotFound]\<rparr>
   \<and> reaches_loop (plain_world three_events_file) three_events
   \<and> is_record all_day_event \<and> is_record malformed_event \<and> is_record timed_event
   \<and> commit_ok (plain_world three_events_file)
   \<and> exit_code (main plain_env (plain_world three_events_file)) = 0
   \<and> last (effects (main plain_env (plain_world three_events_file))) = Print (Complete 2 1)
   \<and> (\<exists>st. main_loop plain_env 0 (start_state (plain_world three_events_file) three_events)
              three_events = Continue st
         \<and> exit_code (main plain_env (plain_world three_events_file)) = 0
         \<and> committed (main plain_env (plain_world three_events_file)) = table st)"
proof -
  let ?w = "plain_world three_events_file"
  let ?w1 = "?w\<lparr>argv := [''scripts/import-calendar.py'']\<rparr>"
  let ?w2 = "?w\<lparr>read_json := (\<lambda>path. None)\<rparr>"
  let ?w3 = "plain_world (JList three_events)"
  let ?w4 = "plain_world (JDict [(''result'', JStr ''none'')])"
  let ?w5 = "?w\<lparr>environ_DATABASE_URL := None\<rparr>"
  have a1: "length (argv ?w1) < 2" by simp
  from C7_exit_codes [where w = ?w1 and env = plain_env, THEN conjunct1, rule_format, OF a1]
  have c1: "main plain_env ?w1 = \<lparr>exit_code = 1, committed = [], effects = [Print Usage]\<rparr>"
    by (simp add: plain_world_def)
  have r2: "read_json ?w2 ''mcp_result.json'' = None" by simp
  have a2: "2 \<le> length (argv ?w2) \<and> read_json ?w2 (argv ?w2 ! 1) = None"
    by (simp add: plain_world_def)
  from C7_exit_codes [where w = ?w2 and env = plain_env,
      THEN conjunct2, THEN conjunct1, rule_format, OF a2]
  have c2: "main plain_env ?w2 = \<lparr>exit_code = 1, committed = [], effects = []\<rparr>"
    by (simp add: plain_world_def)
  have n3: "\<not> is_record (JList three_events)" by simp
  have a3: "2 \<le> length (argv ?w3) \<and> read_json ?w3 (argv ?w3 ! 1) = Some (JList three_events)
            \<and> \<not> is_record (JList three_events)"
    by (simp add: plain_world_def)
  from C7_exit_codes [where w = ?w3 and env = plain_env and data = "JList three_events",
      THEN conjunct2, THEN conjunct2, THEN conjunct1, rule_format, OF a3]
  have c3: "main plain_env ?w3 = \<lparr>exit_code = 1, committed = [], effects = []\<rparr>"
    by (simp add: plain_world_def)
  have n4: "\<not> is_array (JStr ''none'')" by simp
  have a4: "2 \<le> length (argv ?w4)
            \<and> read_json ?w4 (argv ?w4 ! 1) = Some (JDict [(''result'', JStr ''none'')])
            \<and> dict_get (JDict [(''result'', JStr ''none'')]) ''result'' (JList []) = Inr (JStr ''none'')
            \<and> \<not> is_array (JStr ''none'')"
    by (simp add: plain_world_def)
  from C7_exit_codes [where w = ?w4 and env = plain_env
        and data = "JDict [(''result'', JStr ''none'')]" and v = "JStr ''none''",
      THEN conjunct2, THEN conjunct2, THEN conjunct2, THEN conjunct1, rule_format, OF a4]
  have c4: "main plain_env ?w4 = \<lparr>exit_code = 1, committed = [], effects = [Print ExpectedArray]\<rparr>"
    by (simp add: plain_world_def)
  have u5: "find_db_url ?w5 = []"
    by (simp add: find_db_url_def plain_world_def)
  have a5: "2 \<le> length (argv ?w5) \<and> read_json ?w5 (argv ?w5 ! 1) = Some three_events_file
            \<and> dict_get three_events_file ''result'' (JList []) = Inr (JList three_events)
            \<and> find_db_url ?w5 = []"
    using u5 by (simp add: plain_world_def three_events_file_def)
  from C7_exit_codes [where w = ?w5 and env = plain_env
        and data = three_events_file and events = three_events,
      THEN conjunct2, THEN conjunct2, THEN conjunct2, THEN conjunct2, THEN conjunct1,
      rule_format, OF a5]
  have c5: "main plain_env ?w5
       = \<lparr>exit_code = 1, committed = [], effects = [Print (Found 3), Print UrlNotFound]\<rparr>"
    by (simp add: plain_world_def three_events_def)
  have r: "reaches_loop ?w three_events" by code_simp
  have e1: "is_record all_day_event" by (simp add: all_day_event_def)
  have e2: "is_record malformed_event" by (simp add: malformed_event_def)
  have e3: "is_record timed_event" by (simp add: timed_event_def)
  have e: "\<forall>e \<in> set three_events. is_record e"
    using e1 e2 e3 by (simp add: three_events_def)
  have k: "commit_ok ?w" by (simp add: plain_world_def)
  from C7_exit_codes [where w = ?w and env = plain_env and events = three_events,
      THEN conjunct2, THEN conjunct2, THEN conjunct2, THEN conjunct2, THEN conjunct2,
      THEN conjunct2, THEN conjunct2, rule_format, OF conjI [OF r conjI [OF e k]]]
  have c6: "exit_code (main plain_env ?w) = 0" .
  from main_loop_records [OF e, of plain_env 0 "start_state ?w three_events"]
  obtain st where l: "main_loop plain_env 0 (start_state ?w three_events) three_events = Continue st"
    by (elim exE conjE)
  note n = C7_exit_codes [where w = ?w and env = plain_env and events = three_events and st = st,
      THEN conjunct2, THEN conjunct2, THEN conjunct2, THEN conjunct2, THEN conjunct2,
      THEN conjunct2, THEN conjunct1, rule_format, OF conjI [OF r conjI [OF k l]]]
  from l n [THEN conjunct1] n [THEN conjunct2]
  have c8: "\<exists>st. main_loop plain_env 0 (start_state ?w three_events) three_events = Continue st
         \<and> exit_code (main plain_env ?w) = 0
         \<and> committed (main plain_env ?w) = table st"
    by (intro exI [of _ st] conjI)
  have c7: "last (effects (main plain_env ?w)) = Print (Complete 2 1)" by code_simp
  from a1 c1 r2 c2 n3 c3 n4 c4 u5 c5 r e1 e2 e3 k c6 c7 c8 show ?thesis
    by (intro conjI)
qed

subsection \<open>C8: records without an id\<close>

text \<open>
  Claim C8. The \<^verbatim>\<open>id\<close> is not checked: a record without \<^verbatim>\<open>id\<close> (or with the empty
  string) is written under the key \<^verbatim>\<open>''\<close>. When two such records are imported one
  after the other, the second overwrites the row of the first: after each import
  exactly one row has the empty key, and the second import adds no row.
\<close>

theorem C8_missing_id:
  assumes "map_of kvs1 ''id'' = None \<or> map_of kvs1 ''id'' = Some (JStr [])"
    and "map_of kvs2 ''id'' = None \<or> map_of kvs2 ''id'' = Some (JStr [])"
    and "unique_key tbl"
    and "import_event env t1 tbl (JDict kvs1) = Inr tbl1"
    and "import_event env t2 tbl1 (JDict kvs2) = Inr tbl2"
  shows "\<exists>r1 r2. written_row env t1 (JDict kvs1) = Some r1
           \<and> written_row env t2 (JDict kvs2) = Some r2
           \<and> googleEventId r1 = SqlText [] \<and> googleEventId r2 = SqlText []
           \<and> filter (\<lambda>x. googleEventId x = SqlText []) tbl1 = [r1]
           \<and> filter (\<lambda>x. googleEventId x = SqlText []) tbl2 = [r2]
           \<and> length tbl2 = length tbl1"
proof -
  have key: "googleEventId r = SqlText []"
    if "map_of kvs ''id'' = None \<or> map_of kvs ''id'' = Some (JStr [])"
      and "normalize (fromisoformat env) (JDict kvs) = Inr p" and "to_row t p = Inr r"
    for kvs p r t
  proof -
    from normalize_InrD [OF that(2)]
    have "google_event_id p = (case map_of kvs ''id'' of Some v \<Rightarrow> v | None \<Rightarrow> JStr '''')"
      by (elim exE conjE)
    with that(1) have "google_event_id p = JStr []" by auto
    with to_row_InrD(1) [OF that(3)] show ?thesis by simp
  qed
  from assms(4) obtain p1 r1
    where p1: "normalize (fromisoformat env) (JDict kvs1) = Inr p1" and r1: "to_row t1 p1 = Inr r1"
      and w1: "written_row env t1 (JDict kvs1) = Some r1" and t1: "tbl1 = upsert r1 tbl"
    by (rule import_record_rowE)
  from assms(5) obtain p2 r2
    where p2: "normalize (fromisoformat env) (JDict kvs2) = Inr p2" and r2: "to_row t2 p2 = Inr r2"
      and w2: "written_row env t2 (JDict kvs2) = Some r2" and t2: "tbl2 = upsert r2 tbl1"
    by (rule import_record_rowE)
  have k1: "googleEventId r1 = SqlText []" by (rule key [OF assms(1) p1 r1])
  have k2: "googleEventId r2 = SqlText []" by (rule key [OF assms(2) p2 r2])
  have u1: "unique_key tbl1" unfolding t1 by (rule unique_key_upsert [OF assms(3)])
  have f1: "filter (\<lambda>x. googleEventId x = SqlText []) tbl1 = [r1]"
    using upsert_one_row [OF assms(3), of r1] k1 t1 by simp
  have f2: "filter (\<lambda>x. googleEventId x = SqlText []) tbl2 = [r2]"
    using upsert_one_row [OF u1, of r2] k2 t2 by simp
  have "r1 \<in> set tbl1" unfolding t1 by (rule upsert_mem)
  with k1 k2 have "list_ex (conflicts r2) tbl1"
    unfolding list_ex_conflicts by force
  then have len: "length tbl2 = length tbl1"
    unfolding t2 by (simp add: upsert_conflict)
  from w1 w2 k1 k2 f1 f2 len show ?thesis
    by (intro exI [of _ r1] exI [of _ r2] conjI)
qed

text \<open>
  An instance: an event with only a summary, then the empty event, which is stored as
  \<^verbatim>\<open>Untitled\<close> over the first.
\<close>

theorem C8_missing_id_witness:
  "map_of [(''summary'', JStr ''First'')] ''id'' = None
   \<and> map_of ([] :: (string \<times> json) list) ''id'' = None
   \<and> unique_key ([] :: datetime row list)
   \<and> import_event plain_env 1000 [] no_id_event
       = Inr [sample_row [] ''First'' (day_start 2026 1 1) (day_end 2026 1 1) True ''[]'' 1000]
   \<and> import_event plain_env 1001
         [sample_row [] ''First'' (day_start 2026 1 1) (day_end 2026 1 1) True ''[]'' 1000]
         empty_event
       = Inr [sample_row [] ''Untitled'' (day_start 2026 1 1) (day_end 2026 1 1) True ''[]'' 1001]
   \<and> (\<exists>r1 r2. written_row plain_env 1000 no_id_event = Some r1
         \<and> written_row plain_env 1001 empty_event = Some r2
         \<and> googleEventId r1 = SqlText [] \<and> googleEventId r2 = SqlText []
         \<and> filter (\<lambda>x. googleEventId x = SqlText [])
              [sample_row [] ''First'' (day_start 2026 1 1) (day_end 2026 1 1) True ''[]'' 1000]
            = [r1]
         \<and> filter (\<lambda>x. googleEventId x = SqlText [])
              [sample_row [] ''Untitled'' (day_start 2026 1 1) (day_end 2026 1 1) True ''[]'' 1001]
            = [r2]
         \<and> length [sample_row [] ''Untitled'' (day_start 2026 1 1) (day_end 2026 1 1) True ''[]''
                      (1001 :: int)]
            = length [sample_row [] ''First'' (day_start 2026 1 1) (day_end 2026 1 1) True ''[]''
                        (1000 :: int)])"
proof -
  let ?r1 = "sample_row [] ''First'' (day_start 2026 1 1) (day_end 2026 1 1) True ''[]'' 1000"
  let ?r2 = "sample_row [] ''Untitled'' (day_start 2026 1 1) (day_end 2026 1 1) True ''[]'' 1001"
  have a: "map_of [(''summary'', JStr ''First'')] ''id'' = None"
    by simp
  have b: "map_of ([] :: (string \<times> json) list) ''id'' = None"
    by simp
  have u: "unique_key ([] :: datetime row list)"
    by (simp add: unique_key_def)
  have h1: "import_event plain_env 1000 [] no_id_event = Inr [?r1]"
    by code_simp
  have h2: "import_event plain_env 1001 [?r1] empty_event = Inr [?r2]"
    by code_simp
  from a b u h1 h2
    C8_missing_id [OF disjI1 [OF a] disjI1 [OF b] u h1 [unfolded no_id_event_def]
      h2 [unfolded empty_event_def]]
  show ?thesis
    unfolding no_id_event_def empty_event_def by (intro conjI)
qed

subsection \<open>C9: the counters\<close>

text \<open>
  Claim C9. For a run that reaches the loop: every report of the counters that the
  run prints has two counters that are at least 0 and add up to the number of
  elements of the batch. When the loop ends, its counters are at least 0 and add up
  to that number, and with a successful commit the run prints one report, with these
  counters. The loop ends whenever every element is a record (a JSON object). Each
  pass of the loop that ends adds one to exactly one of the two counters.
\<close>

theorem C9_counters:
  assumes "reaches_loop w events"
  shows "(\<forall>s e. Print (Complete s e) \<in> set (effects (main env w)) \<longrightarrow>
            s + e = int (length events) \<and> 0 \<le> s \<and> 0 \<le> e)
         \<and> (\<forall>st. main_loop env 0 (start_state w events) events = Continue st \<longrightarrow>
              synced st + errors st = int (length events) \<and> 0 \<le> synced st \<and> 0 \<le> errors st
              \<and> (commit_ok w \<longrightarrow>
                   filter is_report (effects (main env w))
                     = [Print (Complete (synced st) (errors st))]))
         \<and> ((\<forall>e \<in> set events. is_record e) \<longrightarrow>
              (\<exists>st. main_loop env 0 (start_state w events) events = Continue st))
         \<and> (\<forall>t st0 event st1. process_event env t st0 event = Continue st1 \<longrightarrow>
              (synced st1 = synced st0 + 1 \<and> errors st1 = errors st0)
              \<or> (synced st1 = synced st0 \<and> errors st1 = errors st0 + 1))"
proof (intro conjI allI impI)
  fix st
  assume l: "main_loop env 0 (start_state w events) events = Continue st"
  from main_loop_counters [OF l]
  show "synced st + errors st = int (length events)" and "0 \<le> synced st" and "0 \<le> errors st"
    by (simp_all add: start_state_def)
  assume "commit_ok w"
  with l show "filter is_report (effects (main env w)) = [Print (Complete (synced st) (errors st))]"
    unfolding main_reports [OF assms] by simp
next
  fix s e
  assume "Print (Complete s e) \<in> set (effects (main env w))"
  then have m: "Print (Complete s e) \<in> set (filter is_report (effects (main env w)))"
    by simp
  have "\<exists>st. main_loop env 0 (start_state w events) events = Continue st
          \<and> s = synced st \<and> e = errors st"
  proof (cases "main_loop env 0 (start_state w events) events")
    case (Continue st)
    with m show ?thesis
      unfolding main_reports [OF assms] by (simp split: if_splits)
  next
    case (Uncaught x st)
    with m show ?thesis
      unfolding main_reports [OF assms] by simp
  qed
  then obtain st where l: "main_loop env 0 (start_state w events) events = Continue st"
    and r: "s = synced st" "e = errors st"
    by (elim exE conjE)
  from main_loop_counters [OF l] r
  show "s + e = int (length events)" and "0 \<le> s" and "0 \<le> e"
    by (simp_all add: start_state_def)
next
  assume "\<forall>e \<in> set events. is_record e"
  from main_loop_records [OF this, of env 0 "start_state w events"]
  show "\<exists>st. main_loop env 0 (start_state w events) events = Continue st"
    by (elim exE conjE) (rule exI)
next
  fix t st0 event st1
  assume "process_event env t st0 event = Continue st1"
  then show "(synced st1 = synced st0 + 1 \<and> errors st1 = errors st0)
              \<or> (synced st1 = synced st0 \<and> errors st1 = errors st0 + 1)"
    by (rule process_event_counters)
qed

text \<open>
  An instance: the sample file of three records; the run prints the report of 2 synced
  and 1 error.
\<close>

theorem C9_counters_witness:
  "reaches_loop (plain_world three_events_file) three_events
   \<and> Print (Complete 2 1) \<in> set (effects (main plain_env (plain_world three_events_file)))
   \<and> (2 :: int) + 1 = int (length three_events)
   \<and> is_record all_day_event \<and> is_record malformed_event \<and> is_record timed_event
   \<and> (\<exists>st. main_loop plain_env 0 (start_state (plain_world three_events_file) three_events)
              three_events = Continue st
         \<and> synced st + errors st = int (length three_events)
         \<and> filter is_report (effects (main plain_env (plain_world three_events_file)))
             = [Print (Complete (synced st) (errors st))])"
proof -
  let ?w = "plain_world three_events_file"
  have r: "reaches_loop ?w three_events"
    by code_simp
  note inst = C9_counters [OF r, of plain_env]
  have m: "Print (Complete 2 1) \<in> set (effects (main plain_env ?w))"
    by code_simp
  from inst [THEN conjunct1, rule_format, OF m]
  have s: "(2 :: int) + 1 = int (length three_events)" by (rule conjunct1)
  have e1: "is_record all_day_event" by (simp add: all_day_event_def)
  have e2: "is_record malformed_event" by (simp add: malformed_event_def)
  have e3: "is_record timed_event" by (simp add: timed_event_def)
  have e: "\<forall>e \<in> set three_events. is_record e"
    using e1 e2 e3 by (simp add: three_events_def)
  from inst [THEN conjunct2, THEN conjunct2, THEN conjunct1, THEN mp, OF e]
  obtain st where l: "main_loop plain_env 0 (start_state ?w three_events) three_events = Continue st"
    by (elim exE)
  have k: "commit_ok ?w" by (simp add: plain_world_def)
  note c = inst [THEN conjunct2, THEN conjunct1, rule_format, OF l]
  from c have c1: "synced st + errors st = int (length three_events)" by (rule conjunct1)
  from c [THEN conjunct2, THEN conjunct2, THEN conjunct2, rule_format, OF k]
  have c2: "filter is_report (effects (main plain_env ?w))
             = [Print (Complete (synced st) (errors st))]" .
  from l c1 c2
  have x: "\<exists>st. main_loop plain_env 0 (start_state ?w three_events) three_events = Continue st
         \<and> synced st + errors st = int (length three_events)
         \<and> filter is_report (effects (main plain_env ?w))
             = [Print (Complete (synced st) (errors st))]"
    by (intro exI [of _ st] conjI)
  from r m s e1 e2 e3 x show ?thesis by (intro conjI)
qed

subsection \<open>C10: a dateTime that is present but empty\<close>

text \<open>
  Claim C10. For a record that is imported and whose \<^verbatim>\<open>start\<close> has a \<^verbatim>\<open>dateTime\<close>
  key with the value \<^verbatim>\<open>""\<close> or \<^verbatim>\<open>null\<close>, the stored \<^verbatim>\<open>isAllDay\<close> is false, and
  the stored start time is the parser's reading of the \<^verbatim>\<open>date\<close> field (or of
  \<^verbatim>\<open>2026-01-01\<close> when there is none) followed by \<^verbatim>\<open>T00:00:00+00:00\<close>.
\<close>

theorem C10_empty_dateTime:
  assumes "import_event env t tbl (JDict kvs) = Inr tbl'"
    and "map_of kvs ''start'' = Some (JDict start)"
    and "map_of start ''dateTime'' = Some (JStr []) \<or> map_of start ''dateTime'' = Some JNull"
  shows "\<exists>r. written_row env t (JDict kvs) = Some r \<and> r \<in> set tbl' \<and> \<not> isAllDay r
           \<and> fromisoformat env
                (replace_Z (py_str (case map_of start ''date'' of
                                      Some d \<Rightarrow> d | None \<Rightarrow> JStr ''2026-01-01'')
                            @ ''T00:00:00+00:00''))
              = Some (startTime r)"
proof -
  from assms(1) obtain p r
    where p: "normalize (fromisoformat env) (JDict kvs) = Inr p"
    and r: "to_row t p = Inr r"
    and w: "written_row env t (JDict kvs) = Some r" and m: "r \<in> set tbl'"
    by (rule import_record_rowE)
  from normalize_InrD [OF p] obtain start' v1
    where s: "(case map_of kvs ''start'' of Some v \<Rightarrow> v | None \<Rightarrow> JDict []) = JDict start'"
      and a: "is_all_day p = (map_of start' ''dateTime'' = None)"
      and rs: "resolve_time ''T00:00:00+00:00'' (JDict start') = Inr v1"
      and ps: "parse_datetime (fromisoformat env) v1 = Inr (start_dt p)"
    by (elim exE conjE)
  from s assms(2) have eq: "start' = start" by simp
  from a eq assms(3) to_row_InrD(6) [OF r] have n: "\<not> isAllDay r" by auto
  from time_resolution [OF rs ps] to_row_InrD(4) [OF r] eq assms(3)
  have "fromisoformat env
                (replace_Z (py_str (case map_of start ''date'' of
                                      Some d \<Rightarrow> d | None \<Rightarrow> JStr ''2026-01-01'')
                            @ ''T00:00:00+00:00''))
              = Some (startTime r)"
    by (auto simp: Let_def)
  with w m n show ?thesis by (intro exI [of _ r] conjI)
qed

text \<open>
  An instance: an empty \<^verbatim>\<open>dateTime\<close> beside the date 1 March 2025.
\<close>

theorem C10_empty_dateTime_witness:
  "import_event plain_env 1000 [] empty_dateTime_event
     = Inr [sample_row ''e4'' ''Untitled'' (day_start 2025 3 1) (day_end 2025 3 1) False ''[]'' 1000]
   \<and> (\<exists>r. written_row plain_env 1000 empty_dateTime_event = Some r
         \<and> r \<in> set [sample_row ''e4'' ''Untitled'' (day_start 2025 3 1) (day_end 2025 3 1)
                        False ''[]'' 1000]
         \<and> \<not> isAllDay r
         \<and> fromisoformat plain_env
              (replace_Z (py_str (case map_of [(''dateTime'', JStr ''''), (''date'', JStr ''2025-03-01'')]
                                         ''date''
                                  of Some d \<Rightarrow> d | None \<Rightarrow> JStr ''2026-01-01'')
                          @ ''T00:00:00+00:00''))
            = Some (startTime r))"
proof -
  have h: "import_event plain_env 1000 [] empty_dateTime_event
     = Inr [sample_row ''e4'' ''Untitled'' (day_start 2025 3 1) (day_end 2025 3 1) False ''[]'' 1000]"
    by code_simp
  have s: "map_of [(''id'', JStr ''e4''),
            (''start'', JDict [(''dateTime'', JStr ''''), (''date'', JStr ''2025-03-01'')]),
            (''end'', JDict [(''date'', JStr ''2025-03-01'')])] ''start''
          = Some (JDict [(''dateTime'', JStr ''''), (''date'', JStr ''2025-03-01'')])"
    by simp
  have d: "map_of [(''dateTime'', JStr ''''), (''date'', JStr ''2025-03-01'')] ''dateTime'' = Some (JStr [])
         \<or> map_of [(''dateTime'', JStr ''''), (''date'', JStr ''2025-03-01'')] ''dateTime'' = Some JNull"
    by simp
  from h C10_empty_dateTime [OF h [unfolded empty_dateTime_event_def] s d] show ?thesis
    unfolding empty_dateTime_event_def by (intro conjI)
qed

end
